theory Spec2Isabelle
  imports Main "HOL-Library.AList"
begin

section \<open>The filesystem below BASE_DIR\<close>

text \<open>
  \<open>build_assets.py\<close> only touches paths of the form \<open>BASE_DIR / a / b / ...\<close>. A path
  is the list of its components below \<open>BASE_DIR\<close>; the filesystem is the listing of
  \<open>BASE_DIR\<close>: a tree of directories and regular files. A directory is an association
  list read by its first match, and its order is the order in which \<open>iterdir\<close>
  enumerates it. File contents are bytes (\<open>char\<close> is a byte). Symbolic links,
  permissions and timestamps are not part of the tree.
\<close>

type_synonym path = "string list"

datatype node = File string | Dir "(string \<times> node) list"

type_synonym fs = "(string \<times> node) list"

text \<open>The exceptions the script can meet; each \<open>raise\<close> is an \<open>Inl\<close>.\<close>

datatype error =
    FileNotFoundError
  | NotADirectoryError
  | IsADirectoryError
  | FileExistsError
  | SameFileError
  | UnicodeDecodeError
  | CompileError string
  | CommandError string
  | KeyboardInterrupt

text \<open>Path resolution (\<open>os.stat\<close>): the node at a path, if the path resolves.\<close>

fun lookup :: "fs \<Rightarrow> path \<Rightarrow> node option" where
  "lookup es [] = Some (Dir es)"
| "lookup es (c # cs) =
     (case map_of es c of
        None \<Rightarrow> None
      | Some (File b) \<Rightarrow> (if cs = [] then Some (File b) else None)
      | Some (Dir ds) \<Rightarrow> lookup ds cs)"

text \<open>The errno of a path that does not resolve: ENOTDIR when a regular file is in the
  way, ENOENT otherwise.\<close>

fun absent_error :: "fs \<Rightarrow> path \<Rightarrow> error" where
  "absent_error es [] = FileNotFoundError"
| "absent_error es (c # cs) =
     (case map_of es c of
        None \<Rightarrow> FileNotFoundError
      | Some (File b) \<Rightarrow> NotADirectoryError
      | Some (Dir ds) \<Rightarrow> absent_error ds cs)"

text \<open>\<open>Path.exists()\<close> is False on ENOENT and ENOTDIR and True for a node of any kind;
  \<open>os.path.isdir\<close> is True for a directory only.\<close>

definition path_exists :: "fs \<Rightarrow> path \<Rightarrow> bool" where
  "path_exists es p = (lookup es p \<noteq> None)"

definition is_dir :: "fs \<Rightarrow> path \<Rightarrow> bool" where
  "is_dir es p = (case lookup es p of Some (Dir ds) \<Rightarrow> True | _ \<Rightarrow> False)"

text \<open>\<open>Path.mkdir(parents=True, exist_ok=True)\<close>: every missing component is created;
  a regular file on the way raises (FileExistsError at the last component, where
  \<open>os.mkdir\<close> reports EEXIST and \<open>is_dir()\<close> is False; NotADirectoryError before it).\<close>

fun mkdir_p :: "path \<Rightarrow> fs \<Rightarrow> error + fs" where
  "mkdir_p [] es = Inr es"
| "mkdir_p (c # cs) es =
     (case map_of es c of
        None \<Rightarrow>
          (case mkdir_p cs [] of
             Inl e \<Rightarrow> Inl e
           | Inr ds \<Rightarrow> Inr (AList.update c (Dir ds) es))
      | Some (File b) \<Rightarrow> Inl (if cs = [] then FileExistsError else NotADirectoryError)
      | Some (Dir ds) \<Rightarrow>
          (case mkdir_p cs ds of
             Inl e \<Rightarrow> Inl e
           | Inr ds' \<Rightarrow> Inr (AList.update c (Dir ds') es)))"

text \<open>\<open>open(p, "w")\<close> or \<open>open(p, "wb")\<close>, one write of the whole contents, and close:
  the file is created or truncated; the parent must be a directory and \<open>p\<close> must not
  be one.\<close>

fun write_file :: "path \<Rightarrow> string \<Rightarrow> fs \<Rightarrow> error + fs" where
  "write_file [] b es = Inl IsADirectoryError"
| "write_file [c] b es =
     (case map_of es c of
        Some (Dir ds) \<Rightarrow> Inl IsADirectoryError
      | _ \<Rightarrow> Inr (AList.update c (File b) es))"
| "write_file (c # cs) b es =
     (case map_of es c of
        None \<Rightarrow> Inl FileNotFoundError
      | Some (File x) \<Rightarrow> Inl NotADirectoryError
      | Some (Dir ds) \<Rightarrow>
          (case write_file cs b ds of
             Inl e \<Rightarrow> Inl e
           | Inr ds' \<Rightarrow> Inr (AList.update c (Dir ds') es)))"

text \<open>\<open>open(p, "rb").read()\<close>.\<close>

definition read_file :: "path \<Rightarrow> fs \<Rightarrow> error + string" where
  "read_file p es =
     (case lookup es p of
        None \<Rightarrow> Inl (absent_error es p)
      | Some (Dir ds) \<Rightarrow> Inl IsADirectoryError
      | Some (File b) \<Rightarrow> Inr b)"

text \<open>Removing the entry at a path, whatever it holds.\<close>

fun remove :: "path \<Rightarrow> fs \<Rightarrow> fs" where
  "remove [] es = []"
| "remove [c] es = AList.delete c es"
| "remove (c # cs) es =
     (case map_of es c of
        Some (Dir ds) \<Rightarrow> AList.update c (Dir (remove cs ds)) es
      | _ \<Rightarrow> es)"

text \<open>\<open>shutil.rmtree(p)\<close> with its default error handling: \<open>p\<close> must be a directory.\<close>

definition rmtree :: "path \<Rightarrow> fs \<Rightarrow> error + fs" where
  "rmtree p es =
     (case lookup es p of
        None \<Rightarrow> Inl (absent_error es p)
      | Some (File b) \<Rightarrow> Inl NotADirectoryError
      | Some (Dir ds) \<Rightarrow> Inr (remove p es))"

text \<open>\<open>os.makedirs(dst)\<close> followed by filling \<open>dst\<close>: the missing parents are created
  and the node is placed at the path; a regular file among the parents raises.\<close>

fun put_tree :: "path \<Rightarrow> node \<Rightarrow> fs \<Rightarrow> error + fs" where
  "put_tree [] n es = Inl FileExistsError"
| "put_tree [c] n es = Inr (AList.update c n es)"
| "put_tree (c # cs) n es =
     (case map_of es c of
        None \<Rightarrow>
          (case put_tree cs n [] of
             Inl e \<Rightarrow> Inl e
           | Inr ds \<Rightarrow> Inr (AList.update c (Dir ds) es))
      | Some (File b) \<Rightarrow> Inl NotADirectoryError
      | Some (Dir ds) \<Rightarrow>
          (case put_tree cs n ds of
             Inl e \<Rightarrow> Inl e
           | Inr ds' \<Rightarrow> Inr (AList.update c (Dir ds') es)))"

text \<open>\<open>shutil.copytree(src, dst)\<close> with its defaults: \<open>os.scandir(src)\<close> needs a
  directory, \<open>os.makedirs(dst)\<close> needs \<open>dst\<close> not to exist, and \<open>dst\<close> becomes a copy
  of the tree at \<open>src\<close>.\<close>

definition copytree :: "path \<Rightarrow> path \<Rightarrow> fs \<Rightarrow> error + fs" where
  "copytree src dst es =
     (case lookup es src of
        None \<Rightarrow> Inl (absent_error es src)
      | Some (File b) \<Rightarrow> Inl NotADirectoryError
      | Some (Dir ds) \<Rightarrow>
          (case lookup es dst of
             Some n \<Rightarrow> Inl FileExistsError
           | None \<Rightarrow> put_tree dst (Dir ds) es))"

text \<open>\<open>shutil.copy2(src, dst)\<close>: a directory \<open>dst\<close> stands for
  \<open>dst / basename(src)\<close>; source and target must not be the same file; the bytes are
  read from the source and written to the target.\<close>

definition copy2 :: "path \<Rightarrow> path \<Rightarrow> fs \<Rightarrow> error + fs" where
  "copy2 src dst es =
     (let dst' = (if is_dir es dst then dst @ [last src] else dst) in
      if dst' = src \<and> path_exists es src then Inl SameFileError
      else
        (case read_file src es of
           Inl e \<Rightarrow> Inl e
         | Inr b \<Rightarrow> write_file dst' b es))"

section \<open>Console, collaborators and the state of a run\<close>

text \<open>One constructor for each \<open>print\<close> of the script, with the values it formats; the
  wording of the lines that carry an emoji and the clock time of the "File changed" line
  are not modelled; \<open>Line\<close> is a print of plain text.\<close>

datatype msg =
    Copied path path
  | SourceCssNotFound path
  | CopiedAll path path
  | SourceDirNotFound path
  | Watching path
  | FileChanged
  | CssUpdated
  | StoppedWatching
  | ScssNoDjango
  | ScssNoSass
  | CompiledScss path path
  | ScssNotFound path
  | JsNoDjango
  | ProcessedJs path
  | NoJsFound
  | JournalsNoDjango
  | JournalsNoSass
  | JournalOverrides int string
  | StartingFull
  | CopyingCss
  | CopyingAll
  | ProcessingScss
  | ProcessingJs
  | ProcessingJournals
  | RunningCollectstatic
  | FullCompleted
  | StartingSimple
  | SimpleCompleted
  | HelpTitle
  | UnknownMode string
  | WatcherTitle
  | InitialCopy
  | Line string

text \<open>Calls into the external collaborators.\<close>

datatype call =
    SassCompile path "path list"
  | CallCommand string "string list"

record world =
  files :: fs
  console :: "msg list"
  calls :: "call list"

definition say :: "msg \<Rightarrow> world \<Rightarrow> world" where
  "say m w = w\<lparr>console := console w @ [m]\<rparr>"

text \<open>A tenant record of the data layer: the script reads \<open>journal.id\<close> and
  \<open>journal.name\<close>.\<close>

record journal =
  id' :: int
  name :: string

text \<open>What the import probe at the top of the script leaves behind: the three flags,
  and the collaborators themselves. \<open>sass_compile\<close> is \<open>sass.compile(filename,
  include_paths)\<close>, a function of the files it can read; \<open>journals\<close> is
  \<open>Journal.objects.all()\<close>; \<open>collectstatic\<close> is the framework command.\<close>

record env =
  SASS_AVAILABLE :: bool
  JSMIN_AVAILABLE :: bool
  DJANGO_AVAILABLE :: bool
  sass_compile :: "fs \<Rightarrow> path \<Rightarrow> path list \<Rightarrow> error + string"
  journals :: "journal list"
  collectstatic :: "fs \<Rightarrow> error + fs"

section \<open>The asset copier\<close>

definition source_css :: path where
  "source_css = [''themes'', ''salford'', ''assets'', ''css'', ''salford.css'']"

definition css_dest_dir :: path where
  "css_dest_dir = [''static'', ''salford'', ''css'']"

definition dest_css :: path where
  "dest_css = css_dest_dir @ [''salford.css'']"

definition source_dir :: path where
  "source_dir = [''themes'', ''salford'', ''assets'']"

definition dest_dir :: path where
  "dest_dir = [''static'', ''salford'']"

definition copy_css_assets :: "world \<Rightarrow> error + (bool \<times> world)" where
  "copy_css_assets w =
     (case mkdir_p css_dest_dir (files w) of
        Inl e \<Rightarrow> Inl e
      | Inr fs1 \<Rightarrow>
          if path_exists fs1 source_css then
            (case copy2 source_css dest_css fs1 of
               Inl e \<Rightarrow> Inl e
             | Inr fs2 \<Rightarrow> Inr (True, say (Copied source_css dest_css) (w\<lparr>files := fs2\<rparr>)))
          else Inr (False, say (SourceCssNotFound source_css) (w\<lparr>files := fs1\<rparr>)))"

definition copy_all_assets :: "world \<Rightarrow> error + (bool \<times> world)" where
  "copy_all_assets w =
     (if path_exists (files w) source_dir then
        (case (if path_exists (files w) dest_dir then rmtree dest_dir (files w)
               else Inr (files w)) of
           Inl e \<Rightarrow> Inl e
         | Inr fs1 \<Rightarrow>
             (case copytree source_dir dest_dir fs1 of
                Inl e \<Rightarrow> Inl e
              | Inr fs2 \<Rightarrow> Inr (True, say (CopiedAll source_dir dest_dir) (w\<lparr>files := fs2\<rparr>))))
      else Inr (False, say (SourceDirNotFound source_dir) w))"

section \<open>Watch mode\<close>

text \<open>
  The loop of \<open>watch_and_copy\<close> never ends by itself. One \<open>poll\<close> is what one
  evaluation of \<open>source_css.stat().st_mtime\<close> meets: a timestamp, the file gone
  (\<open>stat\<close> raises FileNotFoundError), or the user's interrupt arriving in that
  iteration. Timestamps are values of a linear order. A finite list of polls runs the
  loop that far: \<open>Polling\<close> is the loop still running, with \<open>last_modified\<close>.
  The first component of the result lists, for each poll that reached the comparison,
  how many times it called \<open>copy_css_assets\<close>. What other programs do to the
  files between two polls is seen through the polls only.
\<close>

datatype 't poll = Mtime 't | Vanished | Interrupt

datatype 't outcome = Returned world | Polling 't world | Raised error

fun watch_loop :: "('t::linorder) \<Rightarrow> 't poll list \<Rightarrow> world \<Rightarrow> nat list \<times> 't outcome" where
  "watch_loop last_modified [] w = ([], Polling last_modified w)"
| "watch_loop last_modified (Interrupt # ps) w = ([], Returned (say StoppedWatching w))"
| "watch_loop last_modified (Vanished # ps) w = ([], Raised FileNotFoundError)"
| "watch_loop last_modified (Mtime current_modified # ps) w =
     (if current_modified > last_modified then
        (case copy_css_assets (say FileChanged w) of
           Inl e \<Rightarrow> ([1], Raised e)
         | Inr (ok, w1) \<Rightarrow>
             (case watch_loop current_modified ps (if ok then say CssUpdated w1 else w1) of
                (copies, r) \<Rightarrow> (1 # copies, r)))
      else
        (case watch_loop last_modified ps w of
           (copies, r) \<Rightarrow> (0 # copies, r)))"

text \<open>The first \<open>stat\<close>, before the \<open>try\<close>, is a poll of its own: there nothing
  catches the interrupt.\<close>

definition watch_and_copy :: "('t::linorder) poll \<Rightarrow> 't poll list \<Rightarrow> world \<Rightarrow> nat list \<times> 't outcome" where
  "watch_and_copy first polls w =
     (if \<not> path_exists (files w) source_css then
        ([], Returned (say (SourceCssNotFound source_css) w))
      else
        (let w1 = say (Line ''Press Ctrl+C to stop watching'') (say (Watching source_css) w) in
         case first of
           Mtime last_modified \<Rightarrow> watch_loop last_modified polls w1
         | Vanished \<Rightarrow> ([], Raised FileNotFoundError)
         | Interrupt \<Rightarrow> ([], Raised KeyboardInterrupt)))"

section \<open>SCSS, JS and the per-journal overrides\<close>

definition include_paths :: "path list" where
  "include_paths =
     [[''themes'', ''salford'', ''assets'', ''foundation-sites'', ''scss''],
      [''themes'', ''salford'', ''assets'', ''motion-ui'', ''src'']]"

definition app_scss_file :: path where
  "app_scss_file = [''themes'', ''salford'', ''assets'', ''scss'', ''app.scss'']"

definition app_css_file :: path where
  "app_css_file = [''static'', ''salford'', ''css'', ''app.css'']"

text \<open>Text files, as \<open>open(p, "r"|"w", encoding="utf-8")\<close> on a POSIX system. Reading
  decodes (ill-formed UTF-8 raises UnicodeDecodeError) and, \<open>newline\<close> being None,
  turns every CR LF and every lone CR into LF; writing encodes and leaves LF as it is.
  CR and LF are single bytes that occur in no multi-byte sequence, so on valid UTF-8 the
  translation can be read on the bytes, which is how text is kept here.\<close>

definition cont :: "nat \<Rightarrow> bool" where
  "cont b = (0x80 \<le> b \<and> b \<le> 0xBF)"

fun utf8_ok :: "nat list \<Rightarrow> bool" where
  "utf8_ok [] = True"
| "utf8_ok (a # bs) =
     (if a < 0x80 then utf8_ok bs
      else if 0xC2 \<le> a \<and> a \<le> 0xDF then
        (case bs of b # r \<Rightarrow> cont b \<and> utf8_ok r | _ \<Rightarrow> False)
      else if 0xE0 \<le> a \<and> a \<le> 0xEF then
        (case bs of
           b # c # r \<Rightarrow>
             (if a = 0xE0 then 0xA0 \<le> b \<and> b \<le> 0xBF
              else if a = 0xED then 0x80 \<le> b \<and> b \<le> 0x9F
              else cont b) \<and> cont c \<and> utf8_ok r
         | _ \<Rightarrow> False)
      else if 0xF0 \<le> a \<and> a \<le> 0xF4 then
        (case bs of
           b # c # d # r \<Rightarrow>
             (if a = 0xF0 then 0x90 \<le> b \<and> b \<le> 0xBF
              else if a = 0xF4 then 0x80 \<le> b \<and> b \<le> 0x8F
              else cont b) \<and> cont c \<and> cont d \<and> utf8_ok r
         | _ \<Rightarrow> False)
      else False)"

fun universal_newlines :: "string \<Rightarrow> string" where
  "universal_newlines [] = []"
| "universal_newlines [c] = (if c = CHR 0x0D then [CHR 0x0A] else [c])"
| "universal_newlines (c # d # cs) =
     (if c = CHR 0x0D \<and> d = CHR 0x0A then CHR 0x0A # universal_newlines cs
      else if c = CHR 0x0D then CHR 0x0A # universal_newlines (d # cs)
      else c # universal_newlines (d # cs))"

definition read_text :: "path \<Rightarrow> fs \<Rightarrow> error + string" where
  "read_text p es =
     (case read_file p es of
        Inl e \<Rightarrow> Inl e
      | Inr b \<Rightarrow>
          if utf8_ok (map of_char b) then Inr (universal_newlines b)
          else Inl UnicodeDecodeError)"

definition write_text :: "path \<Rightarrow> string \<Rightarrow> fs \<Rightarrow> error + fs" where
  "write_text p s es = write_file p s es"

definition process_scss :: "env \<Rightarrow> world \<Rightarrow> error + world" where
  "process_scss env w =
     (if \<not> DJANGO_AVAILABLE env then Inr (say ScssNoDjango w)
      else if \<not> SASS_AVAILABLE env then Inr (say ScssNoSass w)
      else if path_exists (files w) app_scss_file then
        (case sass_compile env (files w) app_scss_file include_paths of
           Inl e \<Rightarrow> Inl e
         | Inr compiled_css_from_file \<Rightarrow>
             (case write_text app_css_file compiled_css_from_file (files w) of
                Inl e \<Rightarrow> Inl e
              | Inr fs1 \<Rightarrow>
                  Inr (say (CompiledScss app_scss_file app_css_file)
                        (w\<lparr>files := fs1,
                           calls := calls w @ [SassCompile app_scss_file include_paths]\<rparr>))))
      else Inr (say (ScssNotFound app_scss_file) w))"

definition source_paths :: "path list" where
  "source_paths =
     [[''themes'', ''salford'', ''assets'', ''js'', ''admin.js''],
      [''themes'', ''salford'', ''assets'', ''js'', ''app.js''],
      [''themes'', ''salford'', ''assets'', ''js'', ''footnotes.js''],
      [''themes'', ''salford'', ''assets'', ''js'', ''table_of_contents.js''],
      [''themes'', ''salford'', ''assets'', ''js'', ''text_resize.js''],
      [''themes'', ''salford'', ''assets'', ''js'', ''toastr.js'']]"

definition dest_path :: path where
  "dest_path = [''static'', ''salford'', ''js'', ''app.js'']"

text \<open>The inner loop of \<open>process_js\<close>: what the reads of the existing files give, in
  order; the first read that raises ends it.\<close>

fun read_all :: "path list \<Rightarrow> fs \<Rightarrow> error + string" where
  "read_all [] es = Inr []"
| "read_all (src_file # ps) es =
     (case read_text src_file es of
        Inl e \<Rightarrow> Inl e
      | Inr s \<Rightarrow>
          (case read_all ps es of
             Inl e \<Rightarrow> Inl e
           | Inr t \<Rightarrow> Inr (s @ t)))"

text \<open>\<open>open(dest_path, "w")\<close> truncates the destination before the first source is
  read; the text written is on disk when the \<open>with\<close> block closes the file.\<close>

definition process_js :: "env \<Rightarrow> world \<Rightarrow> error + world" where
  "process_js env w =
     (if \<not> DJANGO_AVAILABLE env then Inr (say JsNoDjango w)
      else
        (case mkdir_p (butlast dest_path) (files w) of
           Inl e \<Rightarrow> Inl e
         | Inr fs1 \<Rightarrow>
             (let existing_files = filter (path_exists fs1) source_paths in
              if existing_files \<noteq> [] then
                (case write_text dest_path [] fs1 of
                   Inl e \<Rightarrow> Inl e
                 | Inr fs2 \<Rightarrow>
                     (case read_all existing_files fs2 of
                        Inl e \<Rightarrow> Inl e
                      | Inr s \<Rightarrow>
                          (case write_text dest_path s fs2 of
                             Inl e \<Rightarrow> Inl e
                           | Inr fs3 \<Rightarrow> Inr (say (ProcessedJs dest_path) (w\<lparr>files := fs3\<rparr>)))))
              else Inr (say NoJsFound (w\<lparr>files := fs1\<rparr>)))))"

text \<open>\<open>str\<close> of a Python int.\<close>

fun str_nat :: "nat \<Rightarrow> string" where
  "str_nat n =
     (if n < 10 then [char_of (48 + n)]
      else str_nat (n div 10) @ [char_of (48 + n mod 10)])"

declare str_nat.simps [simp del]

definition str_int :: "int \<Rightarrow> string" where
  "str_int i = (if i < 0 then CHR ''-'' # str_nat (nat (- i)) else str_nat (nat i))"

text \<open>\<open>PurePath.suffix\<close> of a file name: from the last dot on, unless that dot is the
  first or the last character.\<close>

definition rfind :: "char \<Rightarrow> string \<Rightarrow> nat option" where
  "rfind c s =
     (if c \<in> set s then Some (length s - 1 - length (takeWhile (\<lambda>x. x \<noteq> c) (rev s)))
      else None)"

definition suffix :: "string \<Rightarrow> string" where
  "suffix nm =
     (case rfind CHR ''.'' nm of
        None \<Rightarrow> []
      | Some i \<Rightarrow> if 0 < i \<and> i < length nm - 1 then drop i nm else [])"

text \<open>\<open>Path.iterdir()\<close>, consumed whole: the names of a directory, in its order.\<close>

definition iterdir :: "fs \<Rightarrow> path \<Rightarrow> error + string list" where
  "iterdir es p =
     (case lookup es p of
        None \<Rightarrow> Inl (absent_error es p)
      | Some (File b) \<Rightarrow> Inl NotADirectoryError
      | Some (Dir ds) \<Rightarrow> Inr (map fst (AList.clearjunk ds)))"

definition journal_dir :: "journal \<Rightarrow> path" where
  "journal_dir j = [''files'', ''styling'', ''journals'', str_int (id' j)]"

definition override_css_name :: "journal \<Rightarrow> string" where
  "override_css_name j = ''journal'' @ str_int (id' j) @ ''_override.css''"

text \<open>The list \<open>scss_files\<close> that the body of the loop builds for one journal.\<close>

definition scss_files :: "fs \<Rightarrow> journal \<Rightarrow> error + path list" where
  "scss_files es j =
     (if path_exists es (journal_dir j) then
        (case iterdir es (journal_dir j) of
           Inl e \<Rightarrow> Inl e
         | Inr names \<Rightarrow>
             Inr (map (\<lambda>n. journal_dir j @ [n]) (filter (\<lambda>n. suffix n = ''.scss'') names)))
      else Inr [])"

fun journals_loop :: "env \<Rightarrow> path \<Rightarrow> path list \<Rightarrow> journal list \<Rightarrow> world \<Rightarrow> error + world" where
  "journals_loop env override_css_dir paths [] w = Inr w"
| "journals_loop env override_css_dir paths (j # js) w =
     (case scss_files (files w) j of
        Inl e \<Rightarrow> Inl e
      | Inr [] \<Rightarrow> journals_loop env override_css_dir paths js w
      | Inr (scss_file # rest) \<Rightarrow>
          (let w1 = say (JournalOverrides (id' j) (name j)) w in
           case sass_compile env (files w1) scss_file paths of
             Inl e \<Rightarrow> Inl e
           | Inr compiled_css_from_file \<Rightarrow>
               (case write_text (override_css_dir @ [override_css_name j])
                       compiled_css_from_file (files w1) of
                  Inl e \<Rightarrow> Inl e
                | Inr fs1 \<Rightarrow>
                    journals_loop env override_css_dir paths js
                      (w1\<lparr>files := fs1, calls := calls w1 @ [SassCompile scss_file paths]\<rparr>))))"

definition process_journals :: "env \<Rightarrow> path \<Rightarrow> path list \<Rightarrow> world \<Rightarrow> error + world" where
  "process_journals env override_css_dir paths w =
     (if \<not> DJANGO_AVAILABLE env then Inr (say JournalsNoDjango w)
      else if \<not> SASS_AVAILABLE env then Inr (say JournalsNoSass w)
      else journals_loop env override_css_dir paths (journals env) w)"

section \<open>The modes\<close>

fun mkdirs :: "path list \<Rightarrow> fs \<Rightarrow> error + fs" where
  "mkdirs [] es = Inr es"
| "mkdirs (p # ps) es =
     (case mkdir_p p es of
        Inl e \<Rightarrow> Inl e
      | Inr es1 \<Rightarrow> mkdirs ps es1)"

definition create_paths :: "world \<Rightarrow> error + (path \<times> world)" where
  "create_paths w =
     (let base_path = [''static'', ''salford''];
          folders = [''css'', ''js'', ''fonts'', ''img''];
          override_css_dir = base_path @ [''css'']
      in
        case mkdirs (map (\<lambda>folder. base_path @ [folder]) folders) (files w) of
          Inl e \<Rightarrow> Inl e
        | Inr fs1 \<Rightarrow>
            (case mkdir_p override_css_dir fs1 of
               Inl e \<Rightarrow> Inl e
             | Inr fs2 \<Rightarrow> Inr (override_css_dir, w\<lparr>files := fs2\<rparr>)))"

definition call_collectstatic :: "env \<Rightarrow> world \<Rightarrow> error + world" where
  "call_collectstatic env w =
     (case collectstatic env (files w) of
        Inl e \<Rightarrow> Inl e
      | Inr fs1 \<Rightarrow>
          Inr (w\<lparr>files := fs1,
                 calls := calls w @ [CallCommand ''collectstatic'' [''--noinput'']]\<rparr>))"

definition build_full :: "env \<Rightarrow> world \<Rightarrow> error + world" where
  "build_full env w =
     (case create_paths (say StartingFull w) of
        Inl e \<Rightarrow> Inl e
      | Inr (override_css_dir, w1) \<Rightarrow>
     (case copy_css_assets (say CopyingCss w1) of
        Inl e \<Rightarrow> Inl e
      | Inr (r2, w2) \<Rightarrow>
     (case copy_all_assets (say CopyingAll w2) of
        Inl e \<Rightarrow> Inl e
      | Inr (r3, w3) \<Rightarrow>
     (case process_scss env (say ProcessingScss w3) of
        Inl e \<Rightarrow> Inl e
      | Inr w4 \<Rightarrow>
     (case process_js env (say ProcessingJs w4) of
        Inl e \<Rightarrow> Inl e
      | Inr w5 \<Rightarrow>
     (case (if DJANGO_AVAILABLE env then
              (case process_journals env override_css_dir include_paths
                      (say ProcessingJournals w5) of
                 Inl e \<Rightarrow> Inl e
               | Inr w6 \<Rightarrow> call_collectstatic env (say RunningCollectstatic w6))
            else Inr w5) of
        Inl e \<Rightarrow> Inl e
      | Inr w7 \<Rightarrow> Inr (say FullCompleted w7)))))))"

definition build_simple :: "world \<Rightarrow> error + world" where
  "build_simple w =
     (case copy_css_assets (say StartingSimple w) of
        Inl e \<Rightarrow> Inl e
      | Inr (r1, w1) \<Rightarrow>
          (case copy_all_assets w1 of
             Inl e \<Rightarrow> Inl e
           | Inr (r2, w2) \<Rightarrow> Inr (say SimpleCompleted w2)))"

definition usage :: "msg list" where
  "usage =
     [HelpTitle,
      Line (replicate 40 CHR ''=''),
      Line ''Usage: python build_assets.py [mode]'',
      Line [],
      Line ''Modes:'',
      Line ''  copy     - Copy CSS and all assets (default)'',
      Line ''  watch    - Watch for CSS changes and auto-copy'',
      Line ''  build    - Full build with SCSS, JS, and Django features'',
      Line ''  help     - Show this help message'',
      Line [],
      Line ''Examples:'',
      Line ''  python build_assets.py copy    # Copy assets once'',
      Line ''  python build_assets.py watch   # Watch for changes'',
      Line ''  python build_assets.py build   # Full build process'']"

definition show_help :: "world \<Rightarrow> world" where
  "show_help w = w\<lparr>console := console w @ usage\<rparr>"

definition finish :: "error + world \<Rightarrow> 't outcome" where
  "finish r = (case r of Inl e \<Rightarrow> Raised e | Inr w \<Rightarrow> Returned w)"

text \<open>\<open>main\<close>, given \<open>sys.argv\<close> and, for watch mode, the polls the loop will meet.\<close>

definition main :: "env \<Rightarrow> ('t::linorder) poll \<Rightarrow> 't poll list \<Rightarrow> string list \<Rightarrow> world \<Rightarrow> 't outcome" where
  "main env first polls argv w =
     (let mode = (if length argv > 1 then argv ! 1 else ''copy'') in
      if mode = ''help'' \<or> mode = ''--help'' \<or> mode = ''-h'' then Returned (show_help w)
      else if mode = ''copy'' then finish (build_simple w)
      else if mode = ''watch'' then
        (case copy_css_assets
                (say InitialCopy (say (Line (replicate 40 CHR ''='')) (say WatcherTitle w))) of
           Inl e \<Rightarrow> Raised e
         | Inr (r, w1) \<Rightarrow> snd (watch_and_copy first polls w1))
      else if mode = ''build'' then finish (build_full env w)
      else Returned (show_help (say (UnknownMode mode) w)))"

section \<open>Predicates and example states used in the statements\<close>

definition is_file :: "fs \<Rightarrow> path \<Rightarrow> bool" where
  "is_file es p = (case lookup es p of Some (File b) \<Rightarrow> True | _ \<Rightarrow> False)"

definition example_env :: env where
  "example_env =
     \<lparr>SASS_AVAILABLE = True, JSMIN_AVAILABLE = False, DJANGO_AVAILABLE = True,
      sass_compile = (\<lambda>es p ps. Inr ''compiled''),
      journals = [],
      collectstatic = (\<lambda>es. Inr es)\<rparr>"

definition empty_world :: world where
  "empty_world = \<lparr>files = [], console = [], calls = []\<rparr>"

definition dir_target_world :: world where
  "dir_target_world =
     \<lparr>files =
        [(''themes'', Dir [(''salford'', Dir [(''assets'', Dir [(''css'',
            Dir [(''salford.css'', File ''body {}'')])])])]),
         (''static'', Dir [(''salford'', Dir [(''css'',
            Dir [(''salford.css'', Dir [])])])])],
      console = [], calls = []\<rparr>"

definition dir_target_after :: world where
  "dir_target_after =
     \<lparr>files =
        [(''themes'', Dir [(''salford'', Dir [(''assets'', Dir [(''css'',
            Dir [(''salford.css'', File ''body {}'')])])])]),
         (''static'', Dir [(''salford'', Dir [(''css'',
            Dir [(''salford.css'', Dir [(''salford.css'', File ''body {}'')])])])])],
      console = [Copied source_css dest_css], calls = []\<rparr>"

definition theme_world :: world where
  "theme_world =
     \<lparr>files =
        [(''themes'', Dir [(''salford'', Dir [(''assets'', Dir [(''css'',
            Dir [(''salford.css'', File ''body {}'')])])])]),
         (''static'', Dir [(''salford'', Dir [(''old.txt'', File ''stale'')])])],
      console = [], calls = []\<rparr>"

definition theme_copied :: world where
  "theme_copied =
     \<lparr>files =
        [(''themes'', Dir [(''salford'', Dir [(''assets'', Dir [(''css'',
            Dir [(''salford.css'', File ''body {}'')])])])]),
         (''static'', Dir [(''salford'', Dir [(''css'',
            Dir [(''salford.css'', File ''body {}'')])])])],
      console = [CopiedAll source_dir dest_dir], calls = []\<rparr>"

text \<open>The timestamps the loop gets to see: those before the first poll that is not one.\<close>

fun observed :: "'t poll list \<Rightarrow> 't list" where
  "observed (Mtime t # ps) = t # observed ps"
| "observed ps = []"

text \<open>The specification's rule for watch mode, in its own words: a tick triggers one copy when
  its timestamp is strictly greater than the last recorded one, which it then replaces,
  and none otherwise.\<close>

fun triggers :: "('t::linorder) \<Rightarrow> 't list \<Rightarrow> nat list" where
  "triggers last_recorded [] = []"
| "triggers last_recorded (t # ts) =
     (if t > last_recorded then 1 # triggers t ts else 0 # triggers last_recorded ts)"

text \<open>The number of reports on the console that \<open>copy_css_assets\<close> has printed.\<close>

definition copy_reports :: "world \<Rightarrow> nat" where
  "copy_reports w =
     length (filter (\<lambda>m. case m of Copied s d \<Rightarrow> True | SourceCssNotFound s \<Rightarrow> True | _ \<Rightarrow> False)
       (console w))"

definition theme_watched :: world where
  "theme_watched =
     \<lparr>files =
        [(''themes'', Dir [(''salford'', Dir [(''assets'', Dir [(''css'',
            Dir [(''salford.css'', File ''body {}'')])])])]),
         (''static'', Dir [(''salford'', Dir [(''old.txt'', File ''stale''),
            (''css'', Dir [(''salford.css'', File ''body {}'')])])])],
      console = [FileChanged, Copied source_css dest_css, CssUpdated,
                 FileChanged, Copied source_css dest_css, CssUpdated],
      calls = []\<rparr>"

text \<open>The bytes of a regular file, and the list \<open>existing_files\<close> of \<open>process_js\<close>.\<close>

definition contents :: "fs \<Rightarrow> path \<Rightarrow> string" where
  "contents es p = (case lookup es p of Some (File b) \<Rightarrow> b | _ \<Rightarrow> [])"

definition existing_files :: "fs \<Rightarrow> path list" where
  "existing_files es = filter (path_exists es) source_paths"

text \<open>The states in which \<open>process_js\<close> meets no exception: its directory can be made,
  \<open>app.js\<close> is not a directory, and the existing sources are regular files of valid
  UTF-8.\<close>

definition js_ready :: "fs \<Rightarrow> bool" where
  "js_ready es =
     (\<not> is_file es [''static''] \<and> \<not> is_file es [''static'', ''salford'']
      \<and> \<not> is_file es [''static'', ''salford'', ''js''] \<and> \<not> is_dir es dest_path
      \<and> (\<forall>p \<in> set (existing_files es). is_file es p \<and> utf8_ok (map of_char (contents es p))))"

definition crlf_world :: world where
  "crlf_world =
     \<lparr>files =
        [(''themes'', Dir [(''salford'', Dir [(''assets'', Dir [(''js'',
            Dir [(''admin.js'', File [CHR ''a'', CHR 0x0D, CHR 0x0A, CHR ''b''])])])])])],
      console = [], calls = []\<rparr>"

definition crlf_after :: world where
  "crlf_after =
     \<lparr>files =
        [(''themes'', Dir [(''salford'', Dir [(''assets'', Dir [(''js'',
            Dir [(''admin.js'', File [CHR ''a'', CHR 0x0D, CHR 0x0A, CHR ''b''])])])])]),
         (''static'', Dir [(''salford'', Dir [(''js'',
            Dir [(''app.js'', File [CHR ''a'', CHR 0x0A, CHR ''b''])])])])],
      console = [ProcessedJs dest_path], calls = []\<rparr>"

definition js_world :: world where
  "js_world =
     \<lparr>files =
        [(''themes'', Dir [(''salford'', Dir [(''assets'', Dir [(''js'',
            Dir [(''toastr.js'', File ''t();''), (''admin.js'', File ''a();'')])])])])],
      console = [], calls = []\<rparr>"

definition js_after :: world where
  "js_after =
     \<lparr>files =
        [(''themes'', Dir [(''salford'', Dir [(''assets'', Dir [(''js'',
            Dir [(''toastr.js'', File ''t();''), (''admin.js'', File ''a();'')])])])]),
         (''static'', Dir [(''salford'', Dir [(''js'',
            Dir [(''app.js'', File ''a();t();'')])])])],
      console = [ProcessedJs dest_path], calls = []\<rparr>"

text \<open>The states in which the CSS copy, and both copies, meet no exception: no regular
  file where a directory is needed, no directory where the CSS file is read or written.\<close>

definition css_copy_ready :: "fs \<Rightarrow> bool" where
  "css_copy_ready es =
     (\<not> is_file es [''static''] \<and> \<not> is_file es dest_dir \<and> \<not> is_file es css_dest_dir
      \<and> \<not> is_dir es source_css \<and> \<not> is_dir es dest_css)"

definition copy_ready :: "fs \<Rightarrow> bool" where
  "copy_ready es = (css_copy_ready es \<and> \<not> is_file es source_dir)"

text \<open>The directories \<open>create_paths\<close> makes, with their parents, and the layouts in
  which no regular file sits where build mode needs a directory and no directory where
  the CSS copy needs a file.\<close>

definition build_dirs :: "path list" where
  "build_dirs =
     [[''static''], [''static'', ''salford''],
      [''static'', ''salford'', ''css''], [''static'', ''salford'', ''js''],
      [''static'', ''salford'', ''fonts''], [''static'', ''salford'', ''img'']]"

definition plain_layout :: "fs \<Rightarrow> bool" where
  "plain_layout es =
     ((\<forall>p \<in> set build_dirs. \<not> is_file es p)
      \<and> \<not> is_file es source_dir \<and> \<not> is_dir es source_css \<and> \<not> is_dir es dest_css)"

definition standalone_env :: env where
  "standalone_env =
     \<lparr>SASS_AVAILABLE = False, JSMIN_AVAILABLE = False, DJANGO_AVAILABLE = False,
      sass_compile = (\<lambda>es p ps. Inl (CompileError ''sass is not installed'')),
      journals = [],
      collectstatic = (\<lambda>es. Inl (CommandError ''django is not installed''))\<rparr>"

definition static_file_world :: world where
  "static_file_world = \<lparr>files = [(''static'', File ''notes'')], console = [], calls = []\<rparr>"

definition scss_only_world :: world where
  "scss_only_world =
     \<lparr>files =
        [(''themes'', Dir [(''salford'', Dir [(''assets'', Dir [(''scss'',
            Dir [(''app.scss'', File ''a { b: c }'')])])])])],
      console = [], calls = []\<rparr>"

text \<open>The specification's words for the tenant overrides: the first name with the suffix
  \<open>.scss\<close> in the listing of the tenant's styling directory, if the directory and
  such a name exist; the compiler calls and the console lines this gives for a list of
  tenants; the output file of a tenant; and two filesystems that agree on everything
  in the base directory but \<open>static\<close>.\<close>

definition first_scss :: "fs \<Rightarrow> journal \<Rightarrow> path option" where
  "first_scss es j =
     (case lookup es (journal_dir j) of
        Some (Dir ds) \<Rightarrow>
          (case filter (\<lambda>n. suffix n = ''.scss'') (map fst (AList.clearjunk ds)) of
             [] \<Rightarrow> None
           | n # ns \<Rightarrow> Some (journal_dir j @ [n]))
      | _ \<Rightarrow> None)"

text \<open>Reading a decimal numeral back, to show that \<open>str\<close> is injective.\<close>

definition nat_of_str :: "string \<Rightarrow> nat" where
  "nat_of_str s = foldl (\<lambda>a c. 10 * a + (of_char c - 48)) 0 s"

definition compiles :: "fs \<Rightarrow> path list \<Rightarrow> journal list \<Rightarrow> call list" where
  "compiles es paths js =
     concat (map (\<lambda>j. case first_scss es j of None \<Rightarrow> [] | Some f \<Rightarrow> [SassCompile f paths]) js)"

definition override_reports :: "fs \<Rightarrow> journal list \<Rightarrow> msg list" where
  "override_reports es js =
     concat (map (\<lambda>j. case first_scss es j of
                        None \<Rightarrow> []
                      | Some f \<Rightarrow> [JournalOverrides (id' j) (name j)]) js)"

definition outside_static :: "fs \<Rightarrow> fs \<Rightarrow> bool" where
  "outside_static es' es = (\<forall>c. c \<noteq> ''static'' \<longrightarrow> map_of es' c = map_of es c)"

definition override_css_file :: "journal \<Rightarrow> path" where
  "override_css_file j = css_dest_dir @ [override_css_name j]"

text \<open>The states in which the override processor meets no exception: the output
  directory exists, no output path is a directory, no styling path is a regular file,
  and the compiler accepts the file of each tenant that has one.\<close>

definition overrides_ready :: "env \<Rightarrow> fs \<Rightarrow> bool" where
  "overrides_ready env es =
     (is_dir es css_dest_dir
      \<and> (\<forall>j \<in> set (journals env).
            \<not> is_file es (journal_dir j) \<and> \<not> is_dir es (override_css_file j)
            \<and> (\<forall>f es'. first_scss es j = Some f \<longrightarrow> outside_static es' es \<longrightarrow>
                  (\<exists>css. sass_compile env es' f include_paths = Inr css))))"

definition journals_env :: env where
  "journals_env =
     \<lparr>SASS_AVAILABLE = True, JSMIN_AVAILABLE = False, DJANGO_AVAILABLE = True,
      sass_compile = (\<lambda>es p ps. Inr (contents es p)),
      journals = [\<lparr>id' = 1, name = ''One''\<rparr>, \<lparr>id' = 2, name = ''Two''\<rparr>,
                  \<lparr>id' = 3, name = ''Three''\<rparr>],
      collectstatic = (\<lambda>es. Inr es)\<rparr>"

definition journals_world :: world where
  "journals_world =
     \<lparr>files =
        [(''files'', Dir [(''styling'', Dir [(''journals'', Dir
            [(''1'', Dir [(''notes.txt'', File ''todo''), (''b.scss'', File ''b {}''),
                          (''a.scss'', File ''a {}'')]),
             (''3'', Dir [(''readme.md'', File ''none'')])])])]),
         (''static'', Dir [(''salford'', Dir [(''css'', Dir [])])])],
      console = [], calls = []\<rparr>"

definition journals_after :: world where
  "journals_after =
     \<lparr>files =
        [(''files'', Dir [(''styling'', Dir [(''journals'', Dir
            [(''1'', Dir [(''notes.txt'', File ''todo''), (''b.scss'', File ''b {}''),
                          (''a.scss'', File ''a {}'')]),
             (''3'', Dir [(''readme.md'', File ''none'')])])])]),
         (''static'', Dir [(''salford'', Dir [(''css'',
            Dir [(''journal1_override.css'', File ''b {}'')])])])],
      console = [JournalOverrides 1 ''One''],
      calls = [SassCompile [''files'', ''styling'', ''journals'', ''1'', ''b.scss'']
                 include_paths]\<rparr>"

section \<open>Properties of the filesystem operations\<close>
subsection \<open>Frame lemmas: an operation below one entry of BASE_DIR leaves the others alone\<close>

lemma mkdir_p_other:
  "mkdir_p (c # cs) es = Inr es' \<Longrightarrow> c' \<noteq> c \<Longrightarrow> map_of es' c' = map_of es c'"
  by (auto split: option.splits node.splits sum.splits simp: update_conv')

lemma write_file_other:
  "write_file (c # cs) b es = Inr es' \<Longrightarrow> c' \<noteq> c \<Longrightarrow> map_of es' c' = map_of es c'"
  by (cases cs) (auto split: option.splits node.splits sum.splits simp: update_conv')

lemma put_tree_other:
  "put_tree (c # cs) n es = Inr es' \<Longrightarrow> c' \<noteq> c \<Longrightarrow> map_of es' c' = map_of es c'"
  by (cases cs) (auto split: option.splits node.splits sum.splits simp: update_conv')

lemma remove_other:
  "c' \<noteq> c \<Longrightarrow> map_of (remove (c # cs) es) c' = map_of es c'"
  by (cases cs) (auto split: option.splits node.splits simp: update_conv' delete_conv')

lemma lookup_head:
  "map_of es' c = map_of es c \<Longrightarrow> lookup es' (c # q) = lookup es (c # q)"
  by simp

lemma absent_error_head:
  "map_of es' c = map_of es c \<Longrightarrow> absent_error es' (c # q) = absent_error es (c # q)"
  by simp

subsection \<open>What each operation leaves at its own path\<close>

lemma mkdir_p_is_dir:
  "mkdir_p p es = Inr es' \<Longrightarrow> \<exists>ds. lookup es' p = Some (Dir ds)"
proof (induction p arbitrary: es es')
  case Nil
  then show ?case by simp
next
  case (Cons c cs)
  then show ?case
    by (fastforce split: option.splits node.splits sum.splits simp: update_conv')
qed

lemma lookup_Nil_below: "q \<noteq> [] \<Longrightarrow> lookup [] q = None"
  by (cases q) simp_all

lemma mkdir_p_below:
  "mkdir_p p es = Inr es' \<Longrightarrow> q \<noteq> [] \<Longrightarrow> lookup es' (p @ q) = lookup es (p @ q)"
proof (induction p arbitrary: es es')
  case Nil
  then show ?case by simp
next
  case (Cons c cs)
  show ?case
  proof (cases "map_of es c")
    case None
    with Cons.prems obtain ds where
      a: "mkdir_p cs [] = Inr ds" "es' = AList.update c (Dir ds) es"
      by (auto split: sum.splits)
    from Cons.IH [OF a(1) Cons.prems(2)] a(2) None Cons.prems(2) show ?thesis
      by (simp add: update_conv' lookup_Nil_below)
  next
    case (Some n)
    with Cons.prems obtain xs xs' where
      a: "n = Dir xs" "mkdir_p cs xs = Inr xs'" "es' = AList.update c (Dir xs') es"
      by (auto split: node.splits sum.splits)
    from Cons.IH [OF a(2) Cons.prems(2)] a(1,3) Some show ?thesis
      by (simp add: update_conv')
  qed
qed

lemma write_file_lookup:
  "write_file p b es = Inr es' \<Longrightarrow> lookup es' p = Some (File b)"
proof (induction p arbitrary: es es')
  case Nil
  then show ?case by simp
next
  case (Cons c cs)
  show ?case
  proof (cases cs)
    case Nil
    with Cons.prems show ?thesis
      by (auto split: option.splits node.splits simp: update_conv')
  next
    case (Cons d ds)
    with Cons.prems obtain xs xs' where
      a: "map_of es c = Some (Dir xs)" "write_file cs b xs = Inr xs'"
         "es' = AList.update c (Dir xs') es"
      by (auto split: option.splits node.splits sum.splits)
    from Cons.IH [OF a(2)] a(3) show ?thesis
      by (simp add: update_conv')
  qed
qed

lemma put_tree_lookup:
  "put_tree p n es = Inr es' \<Longrightarrow> lookup es' p = Some n"
proof (induction p arbitrary: es es')
  case Nil
  then show ?case by simp
next
  case (Cons c cs)
  show ?case
  proof (cases cs)
    case Nil
    with Cons.prems show ?thesis
      by (cases n) (auto simp: update_conv')
  next
    case (Cons d ds)
    with Cons.prems obtain xs xs' where
      a: "put_tree cs n xs = Inr xs'" "es' = AList.update c (Dir xs') es"
      by (auto split: option.splits node.splits sum.splits)
    from Cons.IH [OF a(1)] a(2) show ?thesis
      by (simp add: update_conv')
  qed
qed

lemma lookup_append:
  "lookup es (p @ q) =
     (case lookup es p of
        None \<Rightarrow> None
      | Some (File b) \<Rightarrow> (if q = [] then Some (File b) else None)
      | Some (Dir ds) \<Rightarrow> lookup ds q)"
proof (induction p arbitrary: es)
  case Nil
  then show ?case by simp
next
  case (Cons c cs)
  then show ?case
    by (auto split: option.splits node.splits)
qed

lemma mkdir_p_frame:
  "mkdir_p (c # cs) es = Inr es' \<Longrightarrow> c' \<noteq> c \<Longrightarrow> lookup es' (c' # q) = lookup es (c' # q)"
  using mkdir_p_other [of c cs es es' c'] by simp

lemma write_file_frame:
  "write_file (c # cs) b es = Inr es' \<Longrightarrow> c' \<noteq> c \<Longrightarrow> lookup es' (c' # q) = lookup es (c' # q)"
  using write_file_other [of c cs b es es' c'] by simp

lemma put_tree_frame:
  "put_tree (c # cs) n es = Inr es' \<Longrightarrow> c' \<noteq> c \<Longrightarrow> lookup es' (c' # q) = lookup es (c' # q)"
  using put_tree_other [of c cs n es es' c'] by simp

lemma remove_frame:
  "c' \<noteq> c \<Longrightarrow> lookup (remove (c # cs) es) (c' # q) = lookup es (c' # q)"
  using remove_other [of c' c cs es] by simp

lemma remove_lookup: "p \<noteq> [] \<Longrightarrow> lookup (remove p es) p = None"
proof (induction p arbitrary: es)
  case Nil
  then show ?case by simp
next
  case (Cons c cs)
  show ?case
  proof (cases cs)
    case Nil
    then show ?thesis by (simp add: delete_conv')
  next
    case (Cons d ds)
    with Cons.IH [of] show ?thesis
      by (auto split: option.splits node.splits simp: update_conv')
  qed
qed

lemma is_file_Cons:
  "is_file es (c # q) =
     (case map_of es c of
        None \<Rightarrow> False
      | Some (File b) \<Rightarrow> q = []
      | Some (Dir ds) \<Rightarrow> is_file ds q)"
  by (auto simp: is_file_def split: option.splits node.splits)

lemma is_dir_Cons:
  "is_dir es (c # q) =
     (case map_of es c of
        None \<Rightarrow> False
      | Some (File b) \<Rightarrow> False
      | Some (Dir ds) \<Rightarrow> is_dir ds q)"
  by (auto simp: is_dir_def split: option.splits node.splits)

lemma is_file_Nil [simp]: "\<not> is_file es []" "\<not> is_file [] q"
  by (cases q; simp add: is_file_def)+

lemma is_dir_Nil [simp]: "is_dir es []" "is_dir [] q \<longleftrightarrow> q = []"
  by (cases q; simp add: is_dir_def)+

lemma mkdir_p_is_file:
  "mkdir_p p es = Inr es' \<Longrightarrow> is_file es' q = is_file es q"
proof (induction p arbitrary: es es' q)
  case Nil
  then show ?case by simp
next
  case (Cons c cs)
  show ?case
  proof (cases q)
    case Nil
    then show ?thesis by simp
  next
    case q: (Cons c' q')
    show ?thesis
    proof (cases "c' = c")
      case False
      with mkdir_p_other [OF Cons.prems, of c'] q show ?thesis
        by (simp add: is_file_Cons)
    next
      case True
      show ?thesis
      proof (cases "map_of es c")
        case None
        with Cons.prems obtain ds where
          a: "mkdir_p cs [] = Inr ds" "es' = AList.update c (Dir ds) es"
          by (auto split: sum.splits)
        from Cons.IH [OF a(1), of q'] a(2) None True q show ?thesis
          by (simp add: is_file_Cons update_conv')
      next
        case (Some n)
        with Cons.prems obtain xs xs' where
          a: "n = Dir xs" "mkdir_p cs xs = Inr xs'" "es' = AList.update c (Dir xs') es"
          by (auto split: node.splits sum.splits)
        from Cons.IH [OF a(2), of q'] a(1,3) Some True q show ?thesis
          by (simp add: is_file_Cons update_conv')
      qed
    qed
  qed
qed

lemma mkdir_p_is_dir_back:
  "mkdir_p p es = Inr es' \<Longrightarrow> is_dir es' q \<Longrightarrow> is_dir es q \<or> (\<exists>r. p = q @ r)"
proof (induction p arbitrary: es es' q)
  case Nil
  then show ?case by simp
next
  case (Cons c cs)
  show ?case
  proof (cases q)
    case Nil
    then show ?thesis by simp
  next
    case q: (Cons c' q')
    show ?thesis
    proof (cases "c' = c")
      case False
      with mkdir_p_other [OF Cons.prems(1), of c'] q Cons.prems(2) show ?thesis
        by (simp add: is_dir_Cons)
    next
      case True
      show ?thesis
      proof (cases "map_of es c")
        case None
        with Cons.prems obtain ds where
          a: "mkdir_p cs [] = Inr ds" "es' = AList.update c (Dir ds) es"
          by (auto split: sum.splits)
        from Cons.prems(2) a(2) True q have "is_dir ds q'"
          by (simp add: is_dir_Cons update_conv')
        from Cons.IH [OF a(1) this] True q show ?thesis
          by auto
      next
        case (Some n)
        with Cons.prems obtain xs xs' where
          a: "n = Dir xs" "mkdir_p cs xs = Inr xs'" "es' = AList.update c (Dir xs') es"
          by (auto split: node.splits sum.splits)
        from Cons.prems(2) a(3) True q have "is_dir xs' q'"
          by (simp add: is_dir_Cons update_conv')
        from Cons.IH [OF a(2) this] a(1) Some True q show ?thesis
          by (auto simp: is_dir_Cons)
      qed
    qed
  qed
qed

lemma mkdir_p_returns:
  "\<not> is_file es [a] \<Longrightarrow> \<not> is_file es [a, b] \<Longrightarrow> \<not> is_file es [a, b, c] \<Longrightarrow>
     \<exists>es'. mkdir_p [a, b, c] es = Inr es'"
  by (auto simp: is_file_Cons split: option.splits node.splits sum.splits)

lemma write_file_returns:
  "is_dir es p \<Longrightarrow> \<not> is_dir es (p @ [c]) \<Longrightarrow> \<exists>es'. write_file (p @ [c]) b es = Inr es'"
proof (induction p arbitrary: es)
  case Nil
  then show ?case
    by (auto simp: is_dir_Cons split: option.splits node.splits)
next
  case (Cons d ds)
  from Cons.prems obtain xs where x: "map_of es d = Some (Dir xs)"
    and "is_dir xs ds" and "\<not> is_dir xs (ds @ [c])"
    by (auto simp: is_dir_Cons split: option.splits node.splits)
  from Cons.IH [OF this(2,3)] obtain xs' where "write_file (ds @ [c]) b xs = Inr xs'"
    by blast
  with x show ?case
    by (cases "ds @ [c]") auto
qed

lemma is_dir_prefix:
  "is_dir es (p @ q) \<Longrightarrow> is_dir es p"
  by (auto simp: is_dir_def lookup_append split: option.splits node.splits if_splits)

lemma lookup_parent_is_dir:
  "lookup es (p @ q) = Some n \<Longrightarrow> q \<noteq> [] \<Longrightarrow> is_dir es p"
  by (auto simp: is_dir_def lookup_append split: option.splits node.splits if_splits)

lemma is_dir_not_is_file: "is_dir es p \<Longrightarrow> \<not> is_file es p"
  by (auto simp: is_dir_def is_file_def split: option.splits node.splits)

section \<open>Mode dispatch\<close>

text \<open>
  C7. Without an argument (\<open>sys.argv\<close> holding the program name only, or nothing) \<open>main\<close>
  does exactly what it does for the token \<open>copy\<close>, whatever follows that token. For a
  token outside copy, watch, build, help, --help and -h it returns having printed the
  report of the unknown token and then the usage text; the files and the collaborator
  calls are untouched.
\<close>

theorem main_default_and_unknown_mode:
  "main env first polls [] w = main env first polls (prog # ''copy'' # rest) w
   \<and> main env first polls [prog] w = main env first polls (prog # ''copy'' # rest) w
   \<and> (mode \<notin> {''copy'', ''watch'', ''build'', ''help'', ''--help'', ''-h''} \<longrightarrow>
        main env first polls (prog # mode # rest) w
          = Returned (w\<lparr>console := console w @ UnknownMode mode # usage\<rparr>))"
  by (simp add: main_def show_help_def say_def)

theorem main_default_and_unknown_mode_witness:
  "''deploy'' \<notin> {''copy'', ''watch'', ''build'', ''help'', ''--help'', ''-h''}
   \<and> main example_env (Mtime (0::nat)) [] [''build_assets.py'', ''deploy''] empty_world
       = Returned \<lparr>files = [], console = UnknownMode ''deploy'' # usage, calls = []\<rparr>"
  using main_default_and_unknown_mode
    [of example_env "Mtime (0::nat)" "[]" empty_world "''build_assets.py''" "[]" "''deploy''"]
  by (simp add: empty_world_def)

section \<open>The asset copier\<close>

lemma copy_css_assets_mkdir:
  assumes "copy_css_assets w = Inr (r, w')"
  obtains fs1 where "mkdir_p css_dest_dir (files w) = Inr fs1"
    and "lookup fs1 source_css = lookup (files w) source_css"
    and "\<And>q. lookup fs1 (source_dir @ q) = lookup (files w) (source_dir @ q)"
proof -
  from assms obtain fs1 where m: "mkdir_p css_dest_dir (files w) = Inr fs1"
    by (auto simp: copy_css_assets_def split: sum.splits)
  have "lookup fs1 (''themes'' # q) = lookup (files w) (''themes'' # q)" for q
    using m by (intro mkdir_p_frame [of "''static''" _ "files w"]) (simp_all add: css_dest_dir_def)
  then have "lookup fs1 source_css = lookup (files w) source_css"
    and "\<And>q. lookup fs1 (source_dir @ q) = lookup (files w) (source_dir @ q)"
    by (simp_all only: source_css_def source_dir_def append_Cons)
  with m that show thesis by blast
qed

lemma copy_css_assets_frame:
  assumes "copy_css_assets w = Inr (r, w')"
  shows "lookup (files w') source_dir = lookup (files w) source_dir"
proof -
  from assms obtain fs1 where m: "mkdir_p css_dest_dir (files w) = Inr fs1"
    and s: "\<And>q. lookup fs1 (source_dir @ q) = lookup (files w) (source_dir @ q)"
    by (rule copy_css_assets_mkdir) blast
  from s [of "[]"] have s1: "lookup fs1 source_dir = lookup (files w) source_dir" by simp
  show ?thesis
  proof (cases "path_exists fs1 source_css")
    case False
    with assms m have "files w' = fs1"
      by (auto simp: copy_css_assets_def say_def)
    with s1 show ?thesis by simp
  next
    case True
    with assms m obtain fs2 where c: "copy2 source_css dest_css fs1 = Inr fs2"
      and w': "files w' = fs2"
      by (auto simp: copy_css_assets_def say_def split: sum.splits)
    from c obtain b d where "write_file d b fs1 = Inr fs2"
      and "d = dest_css \<or> d = dest_css @ [last source_css]"
      by (auto simp: copy2_def Let_def split: if_splits sum.splits)
    then obtain p where wr: "write_file (''static'' # p) b fs1 = Inr fs2"
      by (auto simp: dest_css_def css_dest_dir_def simp del: write_file.simps)
    have "lookup fs2 source_dir = lookup fs1 source_dir"
      unfolding source_dir_def using wr by (rule write_file_frame) simp
    with s1 w' show ?thesis by simp
  qed
qed

lemma copy_css_assets_dest_ready:
  assumes "copy_css_assets w = Inr (r, w')"
  shows "\<not> is_file (files w) [''static'']" and "\<not> is_file (files w) dest_dir"
proof -
  from assms obtain fs1 where m: "mkdir_p css_dest_dir (files w) = Inr fs1"
    by (rule copy_css_assets_mkdir) blast
  then show "\<not> is_file (files w) [''static'']" and "\<not> is_file (files w) dest_dir"
    by (auto simp: css_dest_dir_def dest_dir_def is_file_def
             split: option.splits node.splits sum.splits if_splits)
qed

lemma put_tree_dest_dir:
  "\<not> is_file es [''static''] \<Longrightarrow> \<exists>es'. put_tree dest_dir n es = Inr es'"
  by (auto simp: dest_dir_def is_file_def split: option.splits node.splits sum.splits)

lemma remove_dest_dir_static:
  "is_file (remove dest_dir es) [''static''] = is_file es [''static'']"
  by (auto simp: dest_dir_def is_file_def update_conv' split: option.splits node.splits)

lemma dest_dir_static:
  "lookup es dest_dir = Some n \<Longrightarrow> \<not> is_file es [''static'']"
  by (auto simp: dest_dir_def is_file_def split: option.splits node.splits if_splits)

lemma copy_all_assets_result:
  assumes "path_exists (files w) source_dir"
    and "copy_all_assets w = Inr (r, w')"
  shows "r" and "lookup (files w') dest_dir = lookup (files w) source_dir"
    and "lookup (files w') source_dir = lookup (files w) source_dir"
    and "is_dir (files w) source_dir"
proof -
  define fs1 where
    "fs1 = (if path_exists (files w) dest_dir then remove dest_dir (files w) else files w)"
  have src1: "lookup fs1 source_dir = lookup (files w) source_dir"
    by (simp add: fs1_def source_dir_def dest_dir_def remove_frame del: remove.simps lookup.simps)
  from assms obtain fs2 where c: "copytree source_dir dest_dir fs1 = Inr fs2"
    and r: "r" and w': "files w' = fs2"
    by (auto simp: copy_all_assets_def fs1_def rmtree_def say_def
             split: sum.splits if_splits option.splits node.splits)
  from c obtain ds where d: "lookup fs1 source_dir = Some (Dir ds)"
    and p: "put_tree dest_dir (Dir ds) fs1 = Inr fs2"
    by (auto simp: copytree_def split: option.splits node.splits)
  have "lookup fs2 source_dir = lookup fs1 source_dir"
    using p unfolding source_dir_def dest_dir_def by (rule put_tree_frame) simp
  with put_tree_lookup [OF p] d src1 r w'
  show "r" and "lookup (files w') dest_dir = lookup (files w) source_dir"
    and "lookup (files w') source_dir = lookup (files w) source_dir"
    and "is_dir (files w) source_dir"
    by (simp_all add: is_dir_def)
qed

lemma copy_all_assets_returns:
  assumes "is_dir (files w) source_dir"
    and "\<not> is_file (files w) [''static'']"
    and "\<not> is_file (files w) dest_dir"
  shows "\<exists>w'. copy_all_assets w = Inr (True, w')"
proof -
  define fs1 where
    "fs1 = (if path_exists (files w) dest_dir then remove dest_dir (files w) else files w)"
  from assms(3) have rm: "(if path_exists (files w) dest_dir then rmtree dest_dir (files w)
      else Inr (files w)) = Inr fs1"
    by (auto simp: fs1_def rmtree_def path_exists_def is_file_def
             split: option.splits node.splits)
  have "lookup fs1 source_dir = lookup (files w) source_dir"
    by (simp add: fs1_def source_dir_def dest_dir_def remove_frame del: remove.simps lookup.simps)
  with assms(1) obtain ds where d: "lookup fs1 source_dir = Some (Dir ds)"
    by (auto simp: is_dir_def split: option.splits node.splits)
  have n: "lookup fs1 dest_dir = None"
    by (auto simp: fs1_def path_exists_def remove_lookup dest_dir_def simp del: remove.simps lookup.simps)
  from assms(2) have "\<not> is_file fs1 [''static'']"
    by (simp add: fs1_def remove_dest_dir_static)
  from put_tree_dest_dir [OF this] obtain fs2 where "put_tree dest_dir (Dir ds) fs1 = Inr fs2"
    by blast
  with d n have "copytree source_dir dest_dir fs1 = Inr fs2"
    by (simp add: copytree_def)
  with rm assms(1) show ?thesis
    by (auto simp: copy_all_assets_def is_dir_def path_exists_def split: option.splits)
qed

lemma copy_css_assets_absent:
  assumes "\<not> path_exists (files w) source_css"
    and "mkdir_p css_dest_dir (files w) = Inr fs1"
  shows "copy_css_assets w
    = Inr (False, say (SourceCssNotFound source_css) (w\<lparr>files := fs1\<rparr>))"
proof -
  have "lookup fs1 (''themes'' # q) = lookup (files w) (''themes'' # q)" for q
    using assms(2) unfolding css_dest_dir_def by (rule mkdir_p_frame) simp
  then have "lookup fs1 source_css = lookup (files w) source_css"
    by (simp add: source_css_def)
  with assms show ?thesis
    by (simp add: copy_css_assets_def path_exists_def)
qed

lemma css_copy_ready_mkdir:
  assumes "css_copy_ready (files w)"
  shows "\<exists>fs1. mkdir_p css_dest_dir (files w) = Inr fs1"
  using assms mkdir_p_returns [of "files w" "''static''" "''salford''" "''css''"]
  by (simp add: css_copy_ready_def css_dest_dir_def dest_dir_def del: mkdir_p.simps)

lemma copy_css_assets_returns:
  assumes "css_copy_ready (files w)"
  shows "\<exists>r w'. copy_css_assets w = Inr (r, w') \<and> is_dir (files w') dest_dir"
proof -
  from assms have "\<not> is_dir (files w) source_css" "\<not> is_dir (files w) dest_css"
    by (simp_all add: css_copy_ready_def)
  note assms = assms this
  from css_copy_ready_mkdir [OF assms(1)]
  obtain fs1 where m: "mkdir_p css_dest_dir (files w) = Inr fs1" by blast
  from mkdir_p_is_dir [OF m] have d1: "is_dir fs1 css_dest_dir"
    by (auto simp: is_dir_def)
  have "lookup fs1 dest_css = lookup (files w) dest_css"
    unfolding dest_css_def by (rule mkdir_p_below [OF m]) simp
  with assms(3) have nd: "\<not> is_dir fs1 dest_css"
    by (simp add: is_dir_def)
  have "lookup fs1 (''themes'' # q) = lookup (files w) (''themes'' # q)" for q
    using m unfolding css_dest_dir_def by (rule mkdir_p_frame) simp
  then have s: "lookup fs1 source_css = lookup (files w) source_css"
    by (simp add: source_css_def)
  show ?thesis
  proof (cases "path_exists fs1 source_css")
    case False
    with m have "copy_css_assets w
        = Inr (False, say (SourceCssNotFound source_css) (w\<lparr>files := fs1\<rparr>))"
      by (simp add: copy_css_assets_def)
    moreover from d1 have "is_dir fs1 dest_dir"
      using is_dir_prefix [of fs1 dest_dir "[''css'']"]
      by (simp add: css_dest_dir_def dest_dir_def)
    ultimately show ?thesis
      by (auto simp: say_def)
  next
    case True
    with s assms(2) obtain b where b: "lookup fs1 source_css = Some (File b)"
      by (auto simp: path_exists_def is_dir_def split: option.splits node.splits)
    from write_file_returns [OF d1, of "''salford.css''" b] nd obtain fs2 where
      wr: "write_file dest_css b fs1 = Inr fs2"
      by (auto simp: dest_css_def)
    have ne: "dest_css \<noteq> source_css"
      by (simp add: dest_css_def css_dest_dir_def source_css_def)
    from b nd wr ne have "copy2 source_css dest_css fs1 = Inr fs2"
      by (simp add: copy2_def read_file_def)
    with m True have "copy_css_assets w
        = Inr (True, say (Copied source_css dest_css) (w\<lparr>files := fs2\<rparr>))"
      by (simp add: copy_css_assets_def)
    moreover from write_file_lookup [OF wr] have "is_dir fs2 dest_dir"
      using lookup_parent_is_dir [of fs2 dest_dir "[''css'', ''salford.css'']"]
      by (simp add: dest_css_def css_dest_dir_def dest_dir_def)
    ultimately show ?thesis
      by (auto simp: say_def)
  qed
qed

lemma copy_all_assets_returns_any:
  assumes "\<not> is_file (files w) source_dir"
    and "is_dir (files w) dest_dir"
  shows "\<exists>r w'. copy_all_assets w = Inr (r, w')"
proof (cases "path_exists (files w) source_dir")
  case False
  then show ?thesis by (auto simp: copy_all_assets_def)
next
  case True
  with assms(1) have "is_dir (files w) source_dir"
    by (auto simp: path_exists_def is_dir_def is_file_def split: option.splits node.splits)
  moreover from assms(2) have "\<not> is_file (files w) dest_dir"
    by (rule is_dir_not_is_file)
  moreover from assms(2) have "\<not> is_file (files w) [''static'']"
    using is_dir_prefix [of "files w" "[''static'']" "[''salford'']"]
    by (auto simp: dest_dir_def dest: is_dir_not_is_file)
  ultimately show ?thesis
    using copy_all_assets_returns [of w] by blast
qed

lemma build_simple_returns:
  assumes "copy_ready (files w)"
  shows "\<exists>w'. build_simple w = Inr w'"
proof -
  from assms have "css_copy_ready (files (say StartingSimple w))"
    by (simp add: copy_ready_def say_def)
  from copy_css_assets_returns [OF this] obtain r1 w1 where
    c1: "copy_css_assets (say StartingSimple w) = Inr (r1, w1)"
    and d1: "is_dir (files w1) dest_dir"
    by blast
  from copy_css_assets_frame [OF c1]
  have "lookup (files w1) source_dir = lookup (files w) source_dir"
    by (simp add: say_def)
  with assms have "\<not> is_file (files w1) source_dir"
    by (simp add: copy_ready_def is_file_def)
  from copy_all_assets_returns_any [OF this d1] obtain r2 w2 where
    "copy_all_assets w1 = Inr (r2, w2)" by blast
  with c1 show ?thesis
    by (simp add: build_simple_def)
qed

lemma copy_css_assets_missing_source_result:
  assumes "\<not> path_exists (files w) source_css"
    and "copy_css_assets w = Inr (r, w')"
  shows "\<not> r \<and> is_dir (files w') css_dest_dir
         \<and> (\<not> is_dir (files w) css_dest_dir \<longrightarrow> files w' \<noteq> files w)"
proof -
  from assms(2) obtain fs1 where m: "mkdir_p css_dest_dir (files w) = Inr fs1"
    and s: "lookup fs1 source_css = lookup (files w) source_css"
    by (rule copy_css_assets_mkdir) blast
  from assms(1) s have "\<not> path_exists fs1 source_css"
    by (simp add: path_exists_def)
  with assms(2) m have r: "\<not> r" and w': "files w' = fs1"
    by (auto simp: copy_css_assets_def say_def)
  from mkdir_p_is_dir [OF m] w' have "is_dir (files w') css_dest_dir"
    by (auto simp: is_dir_def)
  with r show ?thesis by auto
qed

text \<open>
  C10. \<open>copy_css_assets\<close> creates \<open>static/salford/css\<close> before it looks for the source
  file: in every run where the source CSS file is absent and the function returns, it
  returns False and the destination directory exists afterwards; where the directory
  was not there before, the files have changed. With the source absent it does return
  in every state that is \<open>css_copy_ready\<close>.
\<close>

theorem copy_css_assets_missing_source_creates_dir:
  "(\<not> path_exists (files w) source_css \<and> copy_css_assets w = Inr (r, w') \<longrightarrow>
      \<not> r \<and> is_dir (files w') css_dest_dir
      \<and> (\<not> is_dir (files w) css_dest_dir \<longrightarrow> files w' \<noteq> files w))
   \<and> (\<not> path_exists (files w) source_css \<and> css_copy_ready (files w) \<longrightarrow>
      (\<exists>w'. copy_css_assets w = Inr (False, w')))"
proof (rule conjI; rule impI)
  assume "\<not> path_exists (files w) source_css \<and> copy_css_assets w = Inr (r, w')"
  then show "\<not> r \<and> is_dir (files w') css_dest_dir
      \<and> (\<not> is_dir (files w) css_dest_dir \<longrightarrow> files w' \<noteq> files w)"
    using copy_css_assets_missing_source_result [of w r w'] by blast
next
  assume a: "\<not> path_exists (files w) source_css \<and> css_copy_ready (files w)"
  then obtain fs1 where "mkdir_p css_dest_dir (files w) = Inr fs1"
    using css_copy_ready_mkdir [of w] by blast
  with a copy_css_assets_absent [of w fs1] show "\<exists>w'. copy_css_assets w = Inr (False, w')"
    by blast
qed

theorem copy_css_assets_missing_source_creates_dir_witness:
  "\<not> path_exists (files empty_world) source_css
   \<and> css_copy_ready (files empty_world)
   \<and> copy_css_assets empty_world
       = Inr (False,
           \<lparr>files = [(''static'', Dir [(''salford'', Dir [(''css'', Dir [])])])],
            console = [SourceCssNotFound source_css], calls = []\<rparr>)
   \<and> \<not> is_dir (files empty_world) css_dest_dir
   \<and> is_dir [(''static'', Dir [(''salford'', Dir [(''css'', Dir [])])])] css_dest_dir"
  using copy_css_assets_missing_source_creates_dir
    [of empty_world False
        "\<lparr>files = [(''static'', Dir [(''salford'', Dir [(''css'', Dir [])])])],
          console = [SourceCssNotFound source_css], calls = []\<rparr>"]
  by (simp add: empty_world_def copy_css_assets_def css_copy_ready_def is_file_def
        dest_dir_def dest_css_def css_dest_dir_def source_css_def
        path_exists_def is_dir_def say_def)

lemma copy_css_assets_roundtrip_result:
  assumes "path_exists (files w) source_css"
    and "\<not> is_dir (files w) dest_css"
    and "copy_css_assets w = Inr (r, w')"
  shows "r \<and> (\<exists>b. lookup (files w) source_css = Some (File b)
              \<and> lookup (files w') dest_css = Some (File b))"
proof -
  from assms(3) obtain fs1 where m: "mkdir_p css_dest_dir (files w) = Inr fs1"
    and s: "lookup fs1 source_css = lookup (files w) source_css"
    by (rule copy_css_assets_mkdir) blast
  from assms(1) s have e: "path_exists fs1 source_css"
    by (simp add: path_exists_def)
  with assms(3) m obtain fs2 where c: "copy2 source_css dest_css fs1 = Inr fs2"
    and r: "r" and w': "files w' = fs2"
    by (auto simp: copy_css_assets_def say_def split: sum.splits)
  have "lookup fs1 dest_css = lookup (files w) dest_css"
    unfolding dest_css_def by (rule mkdir_p_below [OF m]) simp
  with assms(2) have d: "\<not> is_dir fs1 dest_css"
    by (simp add: is_dir_def)
  from c d obtain b where rd: "read_file source_css fs1 = Inr b"
    and wr: "write_file dest_css b fs1 = Inr fs2"
    by (auto simp: copy2_def split: if_splits sum.splits)
  from rd have "lookup fs1 source_css = Some (File b)"
    by (auto simp: read_file_def split: option.splits node.splits)
  with s have "lookup (files w) source_css = Some (File b)" by simp
  moreover from write_file_lookup [OF wr] w' have "lookup (files w') dest_css = Some (File b)"
    by simp
  ultimately show ?thesis using r by blast
qed

text \<open>
  C3, amended. In every filesystem state in which the source CSS file exists and the
  destination path \<open>static/salford/css/salford.css\<close> is not a directory, whenever
  \<open>copy_css_assets\<close> returns, it returns True, the source is a regular file, and the
  destination is a regular file with the same bytes. It does return in every state
  that is \<open>css_copy_ready\<close>.
\<close>

theorem copy_css_assets_roundtrip:
  "(path_exists (files w) source_css \<and> \<not> is_dir (files w) dest_css
      \<and> copy_css_assets w = Inr (r, w') \<longrightarrow>
      r \<and> (\<exists>b. lookup (files w) source_css = Some (File b)
              \<and> lookup (files w') dest_css = Some (File b)))
   \<and> (css_copy_ready (files w) \<longrightarrow> (\<exists>r w'. copy_css_assets w = Inr (r, w')))"
  using copy_css_assets_roundtrip_result [of w r w'] copy_css_assets_returns [of w]
  by blast

theorem copy_css_assets_roundtrip_witness:
  "path_exists (files theme_world) source_css
   \<and> css_copy_ready (files theme_world)
   \<and> \<not> is_dir (files theme_world) dest_css
   \<and> copy_css_assets theme_world
       = Inr (True,
           \<lparr>files =
              [(''themes'', Dir [(''salford'', Dir [(''assets'', Dir [(''css'',
                  Dir [(''salford.css'', File ''body {}'')])])])]),
               (''static'', Dir [(''salford'', Dir [(''old.txt'', File ''stale''),
                  (''css'', Dir [(''salford.css'', File ''body {}'')])])])],
            console = [Copied source_css dest_css], calls = []\<rparr>)
   \<and> lookup (files theme_world) source_css = Some (File ''body {}'')"
  using copy_css_assets_roundtrip
    [of theme_world True
        "\<lparr>files =
              [(''themes'', Dir [(''salford'', Dir [(''assets'', Dir [(''css'',
                  Dir [(''salford.css'', File ''body {}'')])])])]),
               (''static'', Dir [(''salford'', Dir [(''old.txt'', File ''stale''),
                  (''css'', Dir [(''salford.css'', File ''body {}'')])])])],
            console = [Copied source_css dest_css], calls = []\<rparr>"]
  by (simp add: theme_world_def copy_css_assets_def copy2_def css_copy_ready_def
        is_file_def dest_dir_def
        read_file_def path_exists_def is_dir_def say_def
        source_css_def css_dest_dir_def dest_css_def)

text \<open>
  Without the condition on the destination the statement fails: \<open>shutil.copy2\<close> copies
  into a destination that is a directory. Here \<open>static/salford/css/salford.css\<close> is an
  empty directory; \<open>copy_css_assets\<close> returns True and the path is still a directory,
  with the copy inside it.
\<close>

theorem copy_css_assets_directory_target_counterexample:
  "path_exists (files dir_target_world) source_css
   \<and> read_file source_css (files dir_target_world) = Inr ''body {}''
   \<and> copy_css_assets dir_target_world = Inr (True, dir_target_after)
   \<and> read_file dest_css (files dir_target_after) = Inl IsADirectoryError"
  by (simp add: dir_target_world_def dir_target_after_def copy_css_assets_def copy2_def
        read_file_def path_exists_def is_dir_def say_def
        source_css_def css_dest_dir_def dest_css_def)

text \<open>
  C2. When the source assets directory exists and \<open>copy_all_assets\<close> returns, it returns
  True and \<open>static/salford\<close> is the tree of the source: every path below it resolves as
  the same path below the source does (so nothing that was only in the destination is
  left), the source is unchanged, and a second run returns True with the same
  destination tree. It does return whenever the source is a directory and neither
  \<open>static\<close> nor \<open>static/salford\<close> is a regular file, that is, whatever destination
  tree there was, if any.
\<close>

theorem copy_all_assets_replica_idempotent:
  "(path_exists (files w) source_dir \<and> copy_all_assets w = Inr (r, w') \<longrightarrow>
      r \<and> lookup (files w') dest_dir = lookup (files w) source_dir
        \<and> (\<forall>q. lookup (files w') (dest_dir @ q) = lookup (files w) (source_dir @ q))
        \<and> lookup (files w') source_dir = lookup (files w) source_dir
        \<and> (\<exists>w''. copy_all_assets w' = Inr (True, w'')
                 \<and> lookup (files w'') dest_dir = lookup (files w') dest_dir))
   \<and> (is_dir (files w) source_dir \<and> \<not> is_file (files w) [''static'']
        \<and> \<not> is_file (files w) dest_dir \<longrightarrow>
      (\<exists>w'. copy_all_assets w = Inr (True, w')))"
proof (rule conjI; rule impI)
  assume a: "path_exists (files w) source_dir \<and> copy_all_assets w = Inr (r, w')"
  note res = copy_all_assets_result [of w r w']
  from a res have r: "r" and d: "lookup (files w') dest_dir = lookup (files w) source_dir"
    and s: "lookup (files w') source_dir = lookup (files w) source_dir"
    and sd: "is_dir (files w) source_dir"
    by simp_all
  from sd s have sd': "is_dir (files w') source_dir"
    by (simp add: is_dir_def)
  from sd d have dd: "is_dir (files w') dest_dir"
    by (simp add: is_dir_def)
  then have "\<not> is_file (files w') dest_dir" "\<not> is_file (files w') [''static'']"
    using dest_dir_static [of "files w'"]
    by (auto simp: is_dir_def is_file_def split: option.splits node.splits)
  with sd' obtain w'' where again: "copy_all_assets w' = Inr (True, w'')"
    using copy_all_assets_returns [of w'] by blast
  from sd' have "path_exists (files w') source_dir"
    by (auto simp: is_dir_def path_exists_def split: option.splits)
  from copy_all_assets_result(2) [OF this again] s d
  have "lookup (files w'') dest_dir = lookup (files w') dest_dir" by simp
  with again have "\<exists>w''. copy_all_assets w' = Inr (True, w'')
      \<and> lookup (files w'') dest_dir = lookup (files w') dest_dir"
    by blast
  moreover have "\<forall>q. lookup (files w') (dest_dir @ q) = lookup (files w) (source_dir @ q)"
    using d by (simp add: lookup_append [of _ dest_dir] lookup_append [of _ source_dir])
  ultimately show "r \<and> lookup (files w') dest_dir = lookup (files w) source_dir
        \<and> (\<forall>q. lookup (files w') (dest_dir @ q) = lookup (files w) (source_dir @ q))
        \<and> lookup (files w') source_dir = lookup (files w) source_dir
        \<and> (\<exists>w''. copy_all_assets w' = Inr (True, w'')
                 \<and> lookup (files w'') dest_dir = lookup (files w') dest_dir)"
    using r d s by blast
next
  assume "is_dir (files w) source_dir \<and> \<not> is_file (files w) [''static'']
        \<and> \<not> is_file (files w) dest_dir"
  then show "\<exists>w'. copy_all_assets w = Inr (True, w')"
    using copy_all_assets_returns [of w] by blast
qed

theorem copy_all_assets_replica_idempotent_witness:
  "path_exists (files theme_world) source_dir
   \<and> is_dir (files theme_world) source_dir
   \<and> \<not> is_file (files theme_world) [''static'']
   \<and> \<not> is_file (files theme_world) dest_dir
   \<and> lookup (files theme_world) (dest_dir @ [''old.txt'']) = Some (File ''stale'')
   \<and> copy_all_assets theme_world = Inr (True, theme_copied)
   \<and> lookup (files theme_copied) (dest_dir @ [''old.txt'']) = None
   \<and> lookup (files theme_copied) dest_dir = lookup (files theme_world) source_dir
   \<and> copy_all_assets theme_copied
       = Inr (True, theme_copied\<lparr>console := [CopiedAll source_dir dest_dir,
                                              CopiedAll source_dir dest_dir]\<rparr>)"
  using copy_all_assets_replica_idempotent [of theme_world True theme_copied]
  by (simp add: theme_world_def theme_copied_def copy_all_assets_def copytree_def rmtree_def
        path_exists_def is_dir_def is_file_def say_def source_dir_def dest_dir_def)

lemma build_simple_result:
  assumes "path_exists (files w) source_dir"
    and "build_simple w = Inr w'"
  shows "\<exists>w''. copy_all_assets w = Inr (True, w'')
            \<and> lookup (files w') dest_dir = lookup (files w'') dest_dir
            \<and> lookup (files w') dest_dir = lookup (files w) source_dir"
proof -
  from assms(2) obtain r1 w1 r2 w2 where
    c1: "copy_css_assets (say StartingSimple w) = Inr (r1, w1)"
    and c2: "copy_all_assets w1 = Inr (r2, w2)"
    and w': "w' = say SimpleCompleted w2"
    by (auto simp: build_simple_def split: sum.splits prod.splits)
  have f: "files (say StartingSimple w) = files w"
    by (simp add: say_def)
  from copy_css_assets_frame [OF c1] f
  have s1: "lookup (files w1) source_dir = lookup (files w) source_dir" by simp
  with assms(1) have e1: "path_exists (files w1) source_dir"
    by (simp add: path_exists_def)
  from copy_all_assets_result [OF e1 c2] s1
  have d2: "lookup (files w2) dest_dir = lookup (files w) source_dir"
    and sd: "is_dir (files w) source_dir"
    by (simp_all add: is_dir_def)
  from copy_css_assets_dest_ready [OF c1] f
  have "\<not> is_file (files w) [''static'']" "\<not> is_file (files w) dest_dir"
    by simp_all
  with sd obtain w'' where alone: "copy_all_assets w = Inr (True, w'')"
    using copy_all_assets_returns [of w] by blast
  from copy_all_assets_result(2) [OF assms(1) alone]
  have "lookup (files w'') dest_dir = lookup (files w) source_dir" .
  with d2 w' alone show ?thesis
    by (auto simp: say_def)
qed

text \<open>
  C9. In copy mode the CSS-only copy does not show in the result: when the source assets
  directory exists and \<open>build_simple\<close> returns, \<open>copy_all_assets\<close> alone, run on the
  initial state, returns True with the same tree at \<open>static/salford\<close>, the tree of the
  source. \<open>build_simple\<close> does return in every state that is \<open>copy_ready\<close>.
\<close>

theorem build_simple_equals_copy_all_assets:
  "(path_exists (files w) source_dir \<and> build_simple w = Inr w' \<longrightarrow>
      (\<exists>w''. copy_all_assets w = Inr (True, w'')
            \<and> lookup (files w') dest_dir = lookup (files w'') dest_dir
            \<and> lookup (files w') dest_dir = lookup (files w) source_dir))
   \<and> (copy_ready (files w) \<longrightarrow> (\<exists>w'. build_simple w = Inr w'))"
  using build_simple_result [of w w'] build_simple_returns [of w]
  by blast

theorem build_simple_equals_copy_all_assets_witness:
  "path_exists (files theme_world) source_dir
   \<and> copy_ready (files theme_world)
   \<and> build_simple theme_world
       = Inr (theme_copied\<lparr>console := [StartingSimple, Copied source_css dest_css,
                                          CopiedAll source_dir dest_dir, SimpleCompleted]\<rparr>)
   \<and> copy_all_assets theme_world = Inr (True, theme_copied)"
  using build_simple_equals_copy_all_assets
    [of theme_world "theme_copied\<lparr>console := [StartingSimple, Copied source_css dest_css,
                                          CopiedAll source_dir dest_dir, SimpleCompleted]\<rparr>"]
  by (simp add: theme_world_def theme_copied_def build_simple_def copy_css_assets_def
        copy_ready_def css_copy_ready_def is_file_def
        copy_all_assets_def copy2_def read_file_def copytree_def rmtree_def
        path_exists_def is_dir_def say_def
        source_dir_def dest_dir_def source_css_def css_dest_dir_def dest_css_def)

section \<open>Watch mode\<close>

lemma copy_css_assets_reports:
  "copy_css_assets w = Inr (r, w') \<Longrightarrow> copy_reports w' = Suc (copy_reports w)"
  by (auto simp: copy_css_assets_def copy_reports_def say_def split: sum.splits if_splits)

lemma copy_reports_say [simp]:
  "copy_reports (say FileChanged w) = copy_reports w"
  "copy_reports (say CssUpdated w) = copy_reports w"
  by (simp_all add: copy_reports_def say_def)

lemma watch_loop_prefix:
  "\<exists>rest. triggers lm (observed polls) = fst (watch_loop lm polls w) @ rest"
proof (induction lm polls w rule: watch_loop.induct)
  case (4 lm cur ps w)
  show ?case
  proof (cases "cur > lm")
    case False
    with 4(2) show ?thesis by (auto split: prod.splits)
  next
    case True
    show ?thesis
    proof (cases "copy_css_assets (say FileChanged w)")
      case (Inl e)
      with True show ?thesis by simp
    next
      case (Inr x)
      obtain ok w1 where x: "x = (ok, w1)" by (cases x)
      from 4(1) [OF True Inr x [symmetric]] True Inr x show ?thesis
        by (auto split: prod.splits)
    qed
  qed
qed simp_all

lemma watch_loop_complete:
  "\<forall>e. snd (watch_loop lm polls w) \<noteq> Raised e \<Longrightarrow>
     fst (watch_loop lm polls w) = triggers lm (observed polls)"
proof (induction lm polls w rule: watch_loop.induct)
  case (4 lm cur ps w)
  show ?case
  proof (cases "cur > lm")
    case False
    with 4(2) 4(3) show ?thesis by (auto split: prod.splits)
  next
    case True
    show ?thesis
    proof (cases "copy_css_assets (say FileChanged w)")
      case (Inl e)
      with True 4(3) show ?thesis by simp
    next
      case (Inr x)
      obtain ok w1 where x: "x = (ok, w1)" by (cases x)
      from 4(1) [OF True Inr x [symmetric]] 4(3) True Inr x show ?thesis
        by (auto split: prod.splits)
    qed
  qed
qed simp_all

lemma watch_loop_polling:
  "snd (watch_loop lm polls w) = Polling l w' \<Longrightarrow>
     copy_reports w' = copy_reports w + sum_list (fst (watch_loop lm polls w))
     \<and> l = fold max (observed polls) lm"
proof (induction lm polls w rule: watch_loop.induct)
  case (4 lm cur ps w)
  show ?case
  proof (cases "cur > lm")
    case False
    with 4(2) 4(3) show ?thesis by (auto split: prod.splits simp: max_def)
  next
    case True
    show ?thesis
    proof (cases "copy_css_assets (say FileChanged w)")
      case (Inl e)
      with True 4(3) show ?thesis by simp
    next
      case (Inr x)
      obtain ok w1 where x: "x = (ok, w1)" by (cases x)
      from copy_css_assets_reports Inr x
      have "copy_reports w1 = Suc (copy_reports w)" by fastforce
      with 4(1) [OF True Inr x [symmetric]] 4(3) True Inr x show ?thesis
        by (auto split: prod.splits if_splits simp: max_def)
    qed
  qed
qed simp_all

text \<open>
  C6. In watch mode, for every sequence of polls, the copies made at the ticks the loop
  reaches are those of the rule \<open>triggers\<close>: one copy at a tick whose timestamp is
  strictly greater than the last recorded one, none at any other tick. The list of
  copies per tick is always an initial part of what the rule gives for the timestamps
  seen, and all of it unless an exception ended the loop. While the loop is polling,
  the console holds one more report of \<open>copy_css_assets\<close> for each copy counted, and
  \<open>last_modified\<close> is the greatest timestamp seen so far. \<open>watch_and_copy\<close> enters
  this loop with the timestamp of its first \<open>stat\<close>.
\<close>

theorem watch_copies_on_advance:
  "(\<exists>rest. triggers lm (observed polls) = fst (watch_loop lm polls w) @ rest)
   \<and> ((\<forall>e. snd (watch_loop lm polls w) \<noteq> Raised e) \<longrightarrow>
        fst (watch_loop lm polls w) = triggers lm (observed polls))
   \<and> (snd (watch_loop lm polls w) = Polling l w' \<longrightarrow>
        copy_reports w' = copy_reports w + sum_list (fst (watch_loop lm polls w))
        \<and> l = fold max (observed polls) lm)
   \<and> (path_exists (files w) source_css \<longrightarrow>
        watch_and_copy (Mtime lm) polls w
          = watch_loop lm polls
              (say (Line ''Press Ctrl+C to stop watching'') (say (Watching source_css) w)))"
  using watch_loop_prefix [of lm polls w] watch_loop_complete [of lm polls w]
    watch_loop_polling [of lm polls w l w']
  by (simp add: watch_and_copy_def)

theorem watch_copies_on_advance_witness:
  "watch_loop (5::nat) [Mtime 5, Mtime 6, Mtime 6, Mtime 4, Mtime 7] theme_world
     = ([0, 1, 0, 0, 1], Polling 7 theme_watched)
   \<and> triggers (5::nat) (observed [Mtime 5, Mtime 6, Mtime 6, Mtime 4, Mtime 7]) = [0, 1, 0, 0, 1]
   \<and> copy_reports theme_watched = copy_reports theme_world + 2
   \<and> path_exists (files theme_world) source_css"
  using watch_copies_on_advance
    [of "5::nat" "[Mtime 5, Mtime 6, Mtime 6, Mtime 4, Mtime 7]" theme_world 7 theme_watched]
  by (simp add: theme_world_def theme_watched_def copy_css_assets_def copy2_def
        read_file_def path_exists_def is_dir_def say_def copy_reports_def
        source_css_def css_dest_dir_def dest_css_def)

section \<open>JS concatenation\<close>

lemma universal_newlines_id:
  "CHR 0x0D \<notin> set b \<Longrightarrow> universal_newlines b = b"
  by (induction b rule: universal_newlines.induct) auto

lemma read_all_result:
  "read_all ps es = Inr s \<Longrightarrow>
     s = concat (map (\<lambda>p. universal_newlines (contents es p)) ps)
     \<and> (\<forall>p \<in> set ps. is_file es p \<and> utf8_ok (map of_char (contents es p)))"
proof (induction ps arbitrary: s)
  case Nil
  then show ?case by simp
next
  case (Cons p ps)
  from Cons.prems obtain a t where
    a: "read_text p es = Inr a" and t: "read_all ps es = Inr t" and s: "s = a @ t"
    by (auto split: sum.splits)
  from a have "is_file es p" "utf8_ok (map of_char (contents es p))"
    "a = universal_newlines (contents es p)"
    by (auto simp: read_text_def read_file_def is_file_def contents_def
             split: sum.splits option.splits node.splits if_splits)
  with Cons.IH [OF t] s show ?case by simp
qed

lemma source_paths_themes:
  "p \<in> set source_paths \<Longrightarrow> \<exists>q. p = ''themes'' # q"
  by (auto simp: source_paths_def)

lemma lookup_same_sources:
  assumes "\<And>q. lookup es' (''themes'' # q) = lookup es (''themes'' # q)"
  shows "existing_files es' = existing_files es"
    and "p \<in> set source_paths \<Longrightarrow> contents es' p = contents es p"
    and "p \<in> set source_paths \<Longrightarrow> is_file es' p = is_file es p"
proof -
  have eq: "lookup es' p = lookup es p" if "p \<in> set source_paths" for p
    using source_paths_themes [OF that] assms by auto
  then show "existing_files es' = existing_files es"
    unfolding existing_files_def path_exists_def
    by (intro filter_cong) auto
  show "p \<in> set source_paths \<Longrightarrow> contents es' p = contents es p"
    using eq by (simp add: contents_def)
  show "p \<in> set source_paths \<Longrightarrow> is_file es' p = is_file es p"
    using eq by (simp add: is_file_def)
qed

lemma process_js_mkdir:
  assumes "DJANGO_AVAILABLE env" and "process_js env w = Inr w'"
  shows "\<exists>fs1. mkdir_p (butlast dest_path) (files w) = Inr fs1
           \<and> existing_files fs1 = existing_files (files w)"
proof -
  from assms obtain fs1 where m: "mkdir_p (butlast dest_path) (files w) = Inr fs1"
    by (auto simp: process_js_def split: sum.splits)
  have "lookup fs1 (''themes'' # q) = lookup (files w) (''themes'' # q)" for q
    using m by (intro mkdir_p_frame [of "''static''" _ "files w"]) (simp_all add: dest_path_def)
  from lookup_same_sources(1) [of fs1 "files w", OF this] m show ?thesis by blast
qed

lemma process_js_none:
  assumes "DJANGO_AVAILABLE env" and "process_js env w = Inr w'"
    and "existing_files (files w) = []"
  shows "\<exists>fs1. mkdir_p (butlast dest_path) (files w) = Inr fs1
           \<and> w' = say NoJsFound (w\<lparr>files := fs1\<rparr>)"
proof -
  from process_js_mkdir [OF assms(1,2)] obtain fs1 where
    m: "mkdir_p (butlast dest_path) (files w) = Inr fs1"
    and e: "existing_files fs1 = existing_files (files w)" by blast
  from assms m e have "w' = say NoJsFound (w\<lparr>files := fs1\<rparr>)"
    by (auto simp: process_js_def existing_files_def)
  with m show ?thesis by blast
qed

lemma process_js_some:
  assumes "DJANGO_AVAILABLE env" and "process_js env w = Inr w'"
    and "existing_files (files w) \<noteq> []"
  shows "\<exists>fs1 fs2 s fs3. mkdir_p (butlast dest_path) (files w) = Inr fs1
           \<and> write_file dest_path [] fs1 = Inr fs2
           \<and> read_all (existing_files (files w)) fs2 = Inr s
           \<and> write_file dest_path s fs2 = Inr fs3
           \<and> w' = say (ProcessedJs dest_path) (w\<lparr>files := fs3\<rparr>)"
proof -
  from process_js_mkdir [OF assms(1,2)] obtain fs1 where
    m: "mkdir_p (butlast dest_path) (files w) = Inr fs1"
    and e: "existing_files fs1 = existing_files (files w)" by blast
  from assms m e have "\<exists>fs2 s fs3. write_file dest_path [] fs1 = Inr fs2
             \<and> read_all (existing_files (files w)) fs2 = Inr s
             \<and> write_file dest_path s fs2 = Inr fs3
             \<and> w' = say (ProcessedJs dest_path) (w\<lparr>files := fs3\<rparr>)"
    by (auto simp: process_js_def existing_files_def write_text_def Let_def split: sum.splits)
  with m show ?thesis by blast
qed

lemma process_js_result:
  assumes "DJANGO_AVAILABLE env" and "process_js env w = Inr w'"
  shows "(existing_files (files w) \<noteq> [] \<longrightarrow>
            lookup (files w') dest_path
              = Some (File (concat (map (\<lambda>p. universal_newlines (contents (files w) p))
                                     (existing_files (files w)))))
            \<and> ((\<forall>p \<in> set (existing_files (files w)). CHR 0x0D \<notin> set (contents (files w) p)) \<longrightarrow>
                 lookup (files w') dest_path
                   = Some (File (concat (map (contents (files w)) (existing_files (files w)))))))
         \<and> (existing_files (files w) = [] \<longrightarrow>
              console w' = console w @ [NoJsFound]
              \<and> mkdir_p (butlast dest_path) (files w) = Inr (files w')
              \<and> lookup (files w') dest_path = lookup (files w) dest_path)"
proof (rule conjI; rule impI)
  assume ne: "existing_files (files w) \<noteq> []"
  from process_js_some [OF assms ne] obtain fs1 fs2 s fs3 where
    m: "mkdir_p (butlast dest_path) (files w) = Inr fs1"
    and t: "write_file dest_path [] fs1 = Inr fs2"
    and r: "read_all (existing_files (files w)) fs2 = Inr s"
    and wr: "write_file dest_path s fs2 = Inr fs3"
    and w': "w' = say (ProcessedJs dest_path) (w\<lparr>files := fs3\<rparr>)"
    by blast
  have f1: "lookup fs1 (''themes'' # q) = lookup (files w) (''themes'' # q)" for q
    using m unfolding dest_path_def butlast.simps by (simp only: list.simps if_False) (rule mkdir_p_frame, assumption, simp)
  have f2: "lookup fs2 (''themes'' # q) = lookup fs1 (''themes'' # q)" for q
    using t unfolding dest_path_def by (rule write_file_frame) simp
  have same: "lookup fs2 (''themes'' # q) = lookup (files w) (''themes'' # q)" for q
    using f1 f2 by simp
  have c: "contents fs2 p = contents (files w) p" if "p \<in> set (existing_files (files w))" for p
    using that lookup_same_sources(2) [of fs2 "files w" p, OF same]
    by (simp add: existing_files_def)
  from read_all_result [OF r]
  have "s = concat (map (\<lambda>p. universal_newlines (contents fs2 p)) (existing_files (files w)))"
    by simp
  also have "\<dots> = concat (map (\<lambda>p. universal_newlines (contents (files w) p))
                        (existing_files (files w)))"
    using c by (intro arg_cong [of _ _ concat] map_cong) auto
  finally have s: "s = concat (map (\<lambda>p. universal_newlines (contents (files w) p))
                        (existing_files (files w)))" .
  from write_file_lookup [OF wr] w' s
  have d: "lookup (files w') dest_path
      = Some (File (concat (map (\<lambda>p. universal_newlines (contents (files w) p))
                                     (existing_files (files w)))))"
    by (simp add: say_def)
  have "concat (map (\<lambda>p. universal_newlines (contents (files w) p)) (existing_files (files w)))
        = concat (map (contents (files w)) (existing_files (files w)))"
    if "\<forall>p \<in> set (existing_files (files w)). CHR 0x0D \<notin> set (contents (files w) p)"
    using that by (intro arg_cong [of _ _ concat] map_cong) (auto simp: universal_newlines_id)
  with d show "lookup (files w') dest_path
              = Some (File (concat (map (\<lambda>p. universal_newlines (contents (files w) p))
                                     (existing_files (files w)))))
            \<and> ((\<forall>p \<in> set (existing_files (files w)). CHR 0x0D \<notin> set (contents (files w) p)) \<longrightarrow>
                 lookup (files w') dest_path
                   = Some (File (concat (map (contents (files w)) (existing_files (files w))))))"
    by simp
next
  assume e: "existing_files (files w) = []"
  from process_js_none [OF assms e] obtain fs1 where
    m: "mkdir_p (butlast dest_path) (files w) = Inr fs1"
    and w': "w' = say NoJsFound (w\<lparr>files := fs1\<rparr>)"
    by blast
  have "lookup fs1 (butlast dest_path @ [''app.js'']) = lookup (files w) (butlast dest_path @ [''app.js''])"
    by (rule mkdir_p_below [OF m]) simp
  then have "lookup fs1 dest_path = lookup (files w) dest_path"
    by (simp add: dest_path_def)
  with m w' show "console w' = console w @ [NoJsFound]
              \<and> mkdir_p (butlast dest_path) (files w) = Inr (files w')
              \<and> lookup (files w') dest_path = lookup (files w) dest_path"
    by (simp add: say_def)
qed

lemma read_all_returns:
  "\<forall>p \<in> set ps. is_file es p \<and> utf8_ok (map of_char (contents es p)) \<Longrightarrow>
     \<exists>s. read_all ps es = Inr s"
proof (induction ps)
  case Nil
  then show ?case by simp
next
  case (Cons p ps)
  then obtain t where "read_all ps es = Inr t" by auto
  moreover from Cons.prems have "\<exists>a. read_text p es = Inr a"
    by (auto simp: read_text_def read_file_def is_file_def contents_def
             split: option.splits node.splits)
  ultimately show ?case by auto
qed

lemma process_js_returns:
  assumes "DJANGO_AVAILABLE env" and "js_ready (files w)"
  shows "\<exists>w'. process_js env w = Inr w'"
proof -
  from assms(2) have "\<not> is_file (files w) [''static'']"
    "\<not> is_file (files w) [''static'', ''salford'']"
    "\<not> is_file (files w) [''static'', ''salford'', ''js'']"
    by (simp_all add: js_ready_def)
  from mkdir_p_returns [OF this] obtain fs1 where
    m: "mkdir_p [''static'', ''salford'', ''js''] (files w) = Inr fs1" by blast
  then have m': "mkdir_p (butlast dest_path) (files w) = Inr fs1"
    by (simp add: dest_path_def del: mkdir_p.simps)
  have f1: "lookup fs1 (''themes'' # q) = lookup (files w) (''themes'' # q)" for q
    using m by (rule mkdir_p_frame) simp
  from lookup_same_sources(1) [of fs1 "files w", OF f1]
  have e: "existing_files fs1 = existing_files (files w)" .
  show ?thesis
  proof (cases "existing_files (files w) = []")
    case True
    with assms(1) m' e show ?thesis
      by (simp add: process_js_def existing_files_def)
  next
    case False
    from mkdir_p_is_dir [OF m] have d1: "is_dir fs1 [''static'', ''salford'', ''js'']"
      by (auto simp: is_dir_def)
    have "lookup fs1 ([''static'', ''salford'', ''js''] @ [''app.js''])
        = lookup (files w) ([''static'', ''salford'', ''js''] @ [''app.js''])"
      by (rule mkdir_p_below [OF m]) simp
    with assms(2) have "\<not> is_dir fs1 ([''static'', ''salford'', ''js''] @ [''app.js''])"
      by (simp add: js_ready_def dest_path_def is_dir_def)
    from write_file_returns [OF d1 this, of "[]"] obtain fs2 where
      t: "write_file dest_path [] fs1 = Inr fs2"
      by (auto simp: dest_path_def)
    have f2: "lookup fs2 (''themes'' # q) = lookup fs1 (''themes'' # q)" for q
      using t unfolding dest_path_def by (rule write_file_frame) simp
    have same: "lookup fs2 (''themes'' # q) = lookup (files w) (''themes'' # q)" for q
      using f1 f2 by simp
    have "\<forall>p \<in> set (existing_files (files w)).
        is_file fs2 p \<and> utf8_ok (map of_char (contents fs2 p))"
    proof
      fix p
      assume p: "p \<in> set (existing_files (files w))"
      then have sp: "p \<in> set source_paths" by (simp add: existing_files_def)
      from lookup_same_sources(2) [of fs2 "files w" p, OF same sp]
        lookup_same_sources(3) [of fs2 "files w" p, OF same sp] assms(2) p
      show "is_file fs2 p \<and> utf8_ok (map of_char (contents fs2 p))"
        by (simp add: js_ready_def)
    qed
    from read_all_returns [OF this] obtain s where
      r: "read_all (existing_files (files w)) fs2 = Inr s" by blast
    from write_file_lookup [OF t]
    have "is_dir fs2 [''static'', ''salford'', ''js'']"
      and "\<not> is_dir fs2 ([''static'', ''salford'', ''js''] @ [''app.js''])"
      using lookup_parent_is_dir [of fs2 "[''static'', ''salford'', ''js'']" "[''app.js'']"]
      by (simp_all add: dest_path_def is_dir_def)
    from write_file_returns [OF this, of s] obtain fs3 where
      "write_file dest_path s fs2 = Inr fs3"
      by (auto simp: dest_path_def)
    with assms(1) m' e False t r show ?thesis
      by (simp add: process_js_def existing_files_def write_text_def)
  qed
qed

text \<open>
  C4, amended. With the framework available, whenever \<open>process_js\<close> returns: if some
  file of the fixed list of six exists, \<open>static/salford/js/app.js\<close> holds the
  concatenation, in list order and with nothing for the missing files, of the existing
  files' contents as text mode reads them, that is with every CR LF and every lone CR
  turned into LF; this is the concatenation of the contents themselves when no existing
  file holds a carriage return. If no listed file exists, it prints the warning and
  writes no file: it has only created the directory \<open>static/salford/js\<close>, and
  \<open>app.js\<close> is as it was. It does return in every state that is \<open>js_ready\<close>.
\<close>

theorem process_js_concatenation:
  assumes "DJANGO_AVAILABLE env"
  shows "(process_js env w = Inr w' \<longrightarrow>
           (existing_files (files w) \<noteq> [] \<longrightarrow>
              lookup (files w') dest_path
                = Some (File (concat (map (\<lambda>p. universal_newlines (contents (files w) p))
                                       (existing_files (files w)))))
              \<and> ((\<forall>p \<in> set (existing_files (files w)). CHR 0x0D \<notin> set (contents (files w) p)) \<longrightarrow>
                   lookup (files w') dest_path
                     = Some (File (concat (map (contents (files w)) (existing_files (files w)))))))
           \<and> (existing_files (files w) = [] \<longrightarrow>
                console w' = console w @ [NoJsFound]
                \<and> mkdir_p (butlast dest_path) (files w) = Inr (files w')
                \<and> lookup (files w') dest_path = lookup (files w) dest_path))
       \<and> (js_ready (files w) \<longrightarrow> (\<exists>w'. process_js env w = Inr w'))"
  using process_js_result [OF assms, of w w'] process_js_returns [OF assms, of w]
  by blast

lemma js_ready_examples:
  "js_ready (files js_world)" "js_ready (files empty_world)"
  by code_simp+

theorem process_js_concatenation_witness:
  "DJANGO_AVAILABLE example_env
   \<and> js_ready (files js_world)
   \<and> existing_files (files js_world)
       = [[''themes'', ''salford'', ''assets'', ''js'', ''admin.js''],
          [''themes'', ''salford'', ''assets'', ''js'', ''toastr.js'']]
   \<and> process_js example_env js_world = Inr js_after
   \<and> lookup (files js_after) dest_path = Some (File ''a();t();'')
   \<and> js_ready (files empty_world)
   \<and> existing_files (files empty_world) = []
   \<and> process_js example_env empty_world
       = Inr \<lparr>files = [(''static'', Dir [(''salford'', Dir [(''js'', Dir [])])])],
              console = [NoJsFound], calls = []\<rparr>"
  using process_js_concatenation [of example_env js_world js_after]
    process_js_concatenation [of example_env empty_world
      "\<lparr>files = [(''static'', Dir [(''salford'', Dir [(''js'', Dir [])])])],
              console = [NoJsFound], calls = []\<rparr>"]
    js_ready_examples
  by (simp add: example_env_def js_world_def js_after_def empty_world_def process_js_def
        existing_files_def source_paths_def dest_path_def path_exists_def say_def
        write_text_def read_text_def read_file_def contents_def)

text \<open>
  As a plain concatenation of contents the statement fails: \<open>admin.js\<close> holds a CR LF,
  and \<open>app.js\<close> is written with a single LF in its place.
\<close>

theorem process_js_newline_counterexample:
  "DJANGO_AVAILABLE example_env
   \<and> existing_files (files crlf_world) = [[''themes'', ''salford'', ''assets'', ''js'', ''admin.js'']]
   \<and> read_file [''themes'', ''salford'', ''assets'', ''js'', ''admin.js''] (files crlf_world)
       = Inr [CHR ''a'', CHR 0x0D, CHR 0x0A, CHR ''b'']
   \<and> process_js example_env crlf_world = Inr crlf_after
   \<and> read_file dest_path (files crlf_after) = Inr [CHR ''a'', CHR 0x0A, CHR ''b'']"
  by (simp add: example_env_def crlf_world_def crlf_after_def process_js_def
        existing_files_def source_paths_def dest_path_def path_exists_def say_def
        write_text_def read_text_def read_file_def)

section \<open>Build mode without the collaborators\<close>

lemma mkdir_static_step:
  assumes "\<forall>p \<in> set build_dirs. \<not> is_file es p"
    and "d \<in> {''css'', ''js'', ''fonts'', ''img''}"
  shows "\<exists>es'. mkdir_p [''static'', ''salford'', d] es = Inr es'
           \<and> (\<forall>q. is_file es' q = is_file es q)
           \<and> (\<forall>q. lookup es' (''themes'' # q) = lookup es (''themes'' # q))
           \<and> (is_dir es' dest_css \<longrightarrow> is_dir es dest_css)
           \<and> is_dir es' [''static'', ''salford'', d]"
proof -
  from assms have "\<not> is_file es [''static'']" "\<not> is_file es [''static'', ''salford'']"
    "\<not> is_file es [''static'', ''salford'', d]"
    by (auto simp: build_dirs_def)
  from mkdir_p_returns [OF this] obtain es' where
    m: "mkdir_p [''static'', ''salford'', d] es = Inr es'" by blast
  have "is_dir es' dest_css \<longrightarrow> is_dir es dest_css"
    using mkdir_p_is_dir_back [OF m, of dest_css]
    by (auto simp: dest_css_def css_dest_dir_def)
  moreover have "lookup es' (''themes'' # q) = lookup es (''themes'' # q)" for q
    using m by (rule mkdir_p_frame) simp
  moreover have "is_dir es' [''static'', ''salford'', d]"
    using mkdir_p_is_dir [OF m] by (auto simp: is_dir_def)
  ultimately show ?thesis
    using m mkdir_p_is_file [OF m] by blast
qed

lemma create_paths_returns:
  assumes "\<forall>p \<in> set build_dirs. \<not> is_file (files w) p"
  shows "\<exists>fs1. create_paths w = Inr (css_dest_dir, w\<lparr>files := fs1\<rparr>)
           \<and> (\<forall>q. is_file fs1 q = is_file (files w) q)
           \<and> (\<forall>q. lookup fs1 (''themes'' # q) = lookup (files w) (''themes'' # q))
           \<and> (is_dir fs1 dest_css \<longrightarrow> is_dir (files w) dest_css)
           \<and> is_dir fs1 css_dest_dir"
proof -
  from mkdir_static_step [OF assms, of "''css''"] obtain e1 where
    1: "mkdir_p [''static'', ''salford'', ''css''] (files w) = Inr e1"
       "\<forall>q. is_file e1 q = is_file (files w) q"
       "\<forall>q. lookup e1 (''themes'' # q) = lookup (files w) (''themes'' # q)"
       "is_dir e1 dest_css \<longrightarrow> is_dir (files w) dest_css"
    by auto
  from 1(2) assms have "\<forall>p \<in> set build_dirs. \<not> is_file e1 p" by simp
  from mkdir_static_step [OF this, of "''js''"] obtain e2 where
    2: "mkdir_p [''static'', ''salford'', ''js''] e1 = Inr e2"
       "\<forall>q. is_file e2 q = is_file e1 q"
       "\<forall>q. lookup e2 (''themes'' # q) = lookup e1 (''themes'' # q)"
       "is_dir e2 dest_css \<longrightarrow> is_dir e1 dest_css"
    by auto
  from 1(2) 2(2) assms have "\<forall>p \<in> set build_dirs. \<not> is_file e2 p" by simp
  from mkdir_static_step [OF this, of "''fonts''"] obtain e3 where
    3: "mkdir_p [''static'', ''salford'', ''fonts''] e2 = Inr e3"
       "\<forall>q. is_file e3 q = is_file e2 q"
       "\<forall>q. lookup e3 (''themes'' # q) = lookup e2 (''themes'' # q)"
       "is_dir e3 dest_css \<longrightarrow> is_dir e2 dest_css"
    by auto
  from 1(2) 2(2) 3(2) assms have "\<forall>p \<in> set build_dirs. \<not> is_file e3 p" by simp
  from mkdir_static_step [OF this, of "''img''"] obtain e4 where
    4: "mkdir_p [''static'', ''salford'', ''img''] e3 = Inr e4"
       "\<forall>q. is_file e4 q = is_file e3 q"
       "\<forall>q. lookup e4 (''themes'' # q) = lookup e3 (''themes'' # q)"
       "is_dir e4 dest_css \<longrightarrow> is_dir e3 dest_css"
    by auto
  from 1(2) 2(2) 3(2) 4(2) assms have "\<forall>p \<in> set build_dirs. \<not> is_file e4 p" by simp
  from mkdir_static_step [OF this, of "''css''"] obtain e5 where
    5: "mkdir_p [''static'', ''salford'', ''css''] e4 = Inr e5"
       "\<forall>q. is_file e5 q = is_file e4 q"
       "\<forall>q. lookup e5 (''themes'' # q) = lookup e4 (''themes'' # q)"
       "is_dir e5 dest_css \<longrightarrow> is_dir e4 dest_css"
       "is_dir e5 [''static'', ''salford'', ''css'']"
    by auto
  from 1(1) 2(1) 3(1) 4(1) 5(1)
  have "create_paths w = Inr (css_dest_dir, w\<lparr>files := e5\<rparr>)"
    by (simp add: create_paths_def css_dest_dir_def del: mkdir_p.simps)
  with 1 2 3 4 5 show ?thesis
    by (auto simp: css_dest_dir_def)
qed

lemma calls_copy_css_assets:
  "copy_css_assets w = Inr (r, w') \<Longrightarrow> calls w' = calls w"
  by (auto simp: copy_css_assets_def say_def split: sum.splits if_splits)

lemma calls_copy_all_assets:
  "copy_all_assets w = Inr (r, w') \<Longrightarrow> calls w' = calls w"
  by (auto simp: copy_all_assets_def say_def split: sum.splits if_splits)

lemma calls_create_paths:
  "create_paths w = Inr (d, w') \<Longrightarrow> calls w' = calls w"
  by (auto simp: create_paths_def Let_def split: sum.splits simp del: mkdirs.simps mkdir_p.simps)

lemma build_full_no_django:
  assumes "\<not> DJANGO_AVAILABLE env"
  shows "build_full env w =
     (case create_paths (say StartingFull w) of
        Inl e \<Rightarrow> Inl e
      | Inr (d, w1) \<Rightarrow>
          (case copy_css_assets (say CopyingCss w1) of
             Inl e \<Rightarrow> Inl e
           | Inr (r2, w2) \<Rightarrow>
               (case copy_all_assets (say CopyingAll w2) of
                  Inl e \<Rightarrow> Inl e
                | Inr (r3, w3) \<Rightarrow>
                    Inr (w3\<lparr>console := console w3 @
                          [ProcessingScss, ScssNoDjango, ProcessingJs, JsNoDjango,
                           FullCompleted]\<rparr>))))"
  using assms
  by (auto simp: build_full_def process_scss_def process_js_def say_def
           split: sum.splits prod.splits)

lemma build_full_returns:
  assumes "\<not> DJANGO_AVAILABLE env" and "plain_layout (files w)"
  shows "\<exists>w'. build_full env w = Inr w'"
proof -
  from assms(2) have bd: "\<forall>p \<in> set build_dirs. \<not> is_file (files (say StartingFull w)) p"
    by (simp add: plain_layout_def say_def)
  from create_paths_returns [OF bd] obtain fs1 where
    c: "create_paths (say StartingFull w) = Inr (css_dest_dir, say StartingFull w\<lparr>files := fs1\<rparr>)"
    and f: "\<forall>q. is_file fs1 q = is_file (files w) q"
    and t: "\<forall>q. lookup fs1 (''themes'' # q) = lookup (files w) (''themes'' # q)"
    and dc: "is_dir fs1 dest_css \<longrightarrow> is_dir (files w) dest_css"
    and d: "is_dir fs1 css_dest_dir"
    by (auto simp: say_def)
  define w1 where "w1 = say CopyingCss (say StartingFull w\<lparr>files := fs1\<rparr>)"
  have fw1: "files w1 = fs1" by (simp add: w1_def say_def)
  from t have "lookup fs1 source_css = lookup (files w) source_css"
    by (simp add: source_css_def)
  with assms(2) have "\<not> is_dir fs1 source_css"
    by (simp add: plain_layout_def is_dir_def)
  moreover from dc assms(2) have "\<not> is_dir fs1 dest_css"
    by (auto simp: plain_layout_def)
  moreover from d have "\<not> is_file fs1 [''static'']" "\<not> is_file fs1 dest_dir"
    "\<not> is_file fs1 css_dest_dir"
    using is_dir_prefix [of fs1 "[''static'']" "[''salford'', ''css'']"]
      is_dir_prefix [of fs1 dest_dir "[''css'']"]
    by (auto simp: css_dest_dir_def dest_dir_def dest: is_dir_not_is_file)
  ultimately have "css_copy_ready (files w1)"
    by (simp add: css_copy_ready_def fw1)
  from copy_css_assets_returns [OF this]
  obtain r2 w2 where c2: "copy_css_assets w1 = Inr (r2, w2)"
    and d2: "is_dir (files w2) dest_dir"
    by blast
  from copy_css_assets_frame [OF c2] fw1 t
  have "lookup (files w2) source_dir = lookup (files w) source_dir"
    by (simp add: source_dir_def)
  with assms(2) have "\<not> is_file (files (say CopyingAll w2)) source_dir"
    by (simp add: plain_layout_def is_file_def say_def)
  moreover from d2 have "is_dir (files (say CopyingAll w2)) dest_dir"
    by (simp add: say_def)
  ultimately obtain r3 w3 where c3: "copy_all_assets (say CopyingAll w2) = Inr (r3, w3)"
    using copy_all_assets_returns_any by blast
  from c c2 c3 show ?thesis
    by (simp add: build_full_no_django [OF assms(1)] w1_def)
qed

text \<open>
  C5, amended. When the SCSS compiler and the framework are both absent, build mode is
  the directory creation and the two asset copies, followed by nothing but the two
  warnings of the skipped SCSS and JS steps and the closing line: the tenant overrides
  and collectstatic are not run, and no collaborator is called. An exception of the
  directory creation or of a copy propagates; build mode completes without raising in
  every plain layout, that is whenever no regular file is at \<open>static\<close>,
  \<open>static/salford\<close>, one of its four folders or the source assets path, and neither the
  source nor the destination CSS path is a directory.
\<close>

theorem build_full_without_collaborators:
  assumes "\<not> SASS_AVAILABLE env" and "\<not> DJANGO_AVAILABLE env"
  shows "build_full env w =
     (case create_paths (say StartingFull w) of
        Inl e \<Rightarrow> Inl e
      | Inr (d, w1) \<Rightarrow>
          (case copy_css_assets (say CopyingCss w1) of
             Inl e \<Rightarrow> Inl e
           | Inr (r2, w2) \<Rightarrow>
               (case copy_all_assets (say CopyingAll w2) of
                  Inl e \<Rightarrow> Inl e
                | Inr (r3, w3) \<Rightarrow>
                    Inr (w3\<lparr>console := console w3 @
                          [ProcessingScss, ScssNoDjango, ProcessingJs, JsNoDjango,
                           FullCompleted]\<rparr>))))
     \<and> (\<forall>w'. build_full env w = Inr w' \<longrightarrow> calls w' = calls w)
     \<and> (plain_layout (files w) \<longrightarrow> (\<exists>w'. build_full env w = Inr w'))"
proof (intro conjI)
  show "build_full env w =
     (case create_paths (say StartingFull w) of
        Inl e \<Rightarrow> Inl e
      | Inr (d, w1) \<Rightarrow>
          (case copy_css_assets (say CopyingCss w1) of
             Inl e \<Rightarrow> Inl e
           | Inr (r2, w2) \<Rightarrow>
               (case copy_all_assets (say CopyingAll w2) of
                  Inl e \<Rightarrow> Inl e
                | Inr (r3, w3) \<Rightarrow>
                    Inr (w3\<lparr>console := console w3 @
                          [ProcessingScss, ScssNoDjango, ProcessingJs, JsNoDjango,
                           FullCompleted]\<rparr>))))"
    by (rule build_full_no_django [OF assms(2)])
  show "\<forall>w'. build_full env w = Inr w' \<longrightarrow> calls w' = calls w"
    unfolding build_full_no_django [OF assms(2)]
    by (auto split: sum.splits prod.splits
        dest!: calls_create_paths calls_copy_css_assets calls_copy_all_assets
        simp: say_def)
  show "plain_layout (files w) \<longrightarrow> (\<exists>w'. build_full env w = Inr w')"
    using build_full_returns [OF assms(2)] by blast
qed

theorem build_full_without_collaborators_witness:
  "\<not> SASS_AVAILABLE standalone_env \<and> \<not> DJANGO_AVAILABLE standalone_env
   \<and> plain_layout (files theme_world)
   \<and> build_full standalone_env theme_world
       = Inr (theme_copied\<lparr>console :=
               [StartingFull, CopyingCss, Copied source_css dest_css, CopyingAll,
                CopiedAll source_dir dest_dir, ProcessingScss, ScssNoDjango, ProcessingJs,
                JsNoDjango, FullCompleted]\<rparr>)"
  using build_full_without_collaborators [of standalone_env theme_world]
  by (simp add: standalone_env_def theme_world_def theme_copied_def plain_layout_def
        build_dirs_def is_file_def is_dir_def create_paths_def copy_css_assets_def
        copy_all_assets_def copy2_def read_file_def copytree_def rmtree_def
        path_exists_def say_def
        source_dir_def dest_dir_def source_css_def css_dest_dir_def dest_css_def)

text \<open>
  Without the condition on the layout the statement fails: with a regular file named
  \<open>static\<close> in the base directory, build mode ends in \<open>create_paths\<close> with
  NotADirectoryError.
\<close>

theorem build_full_static_file_counterexample:
  "\<not> SASS_AVAILABLE standalone_env \<and> \<not> DJANGO_AVAILABLE standalone_env
   \<and> build_full standalone_env static_file_world = Inl NotADirectoryError
   \<and> main standalone_env (Mtime (0::nat)) [] [''build_assets.py'', ''build''] static_file_world
       = Raised NotADirectoryError"
  by (simp add: standalone_env_def static_file_world_def main_def finish_def build_full_def
        create_paths_def say_def)

section \<open>Error handling\<close>

text \<open>
  C1, amended. Each operation turns the failure of the preconditions it tests into a
  return value or a console message, without raising and without another effect: the
  CSS copy and the full copy return False for an absent source (the CSS copy after
  creating its directory), the SCSS compile, the JS concatenation and the tenant
  overrides return after a warning when a collaborator they need is absent, as do the
  SCSS compile for an absent entry file and the JS concatenation when no source exists,
  the watcher returns for an absent source file, and its loop returns on the interrupt.
  Nothing else is caught.
\<close>

theorem precondition_failures_are_reported:
  "(\<not> path_exists (files w) source_css \<and> mkdir_p css_dest_dir (files w) = Inr fs1 \<longrightarrow>
      copy_css_assets w = Inr (False, say (SourceCssNotFound source_css) (w\<lparr>files := fs1\<rparr>)))
   \<and> (\<not> path_exists (files w) source_dir \<longrightarrow>
      copy_all_assets w = Inr (False, say (SourceDirNotFound source_dir) w))
   \<and> (\<not> DJANGO_AVAILABLE env \<longrightarrow> process_scss env w = Inr (say ScssNoDjango w))
   \<and> (DJANGO_AVAILABLE env \<and> \<not> SASS_AVAILABLE env \<longrightarrow>
      process_scss env w = Inr (say ScssNoSass w))
   \<and> (DJANGO_AVAILABLE env \<and> SASS_AVAILABLE env \<and> \<not> path_exists (files w) app_scss_file \<longrightarrow>
      process_scss env w = Inr (say (ScssNotFound app_scss_file) w))
   \<and> (\<not> DJANGO_AVAILABLE env \<longrightarrow> process_js env w = Inr (say JsNoDjango w))
   \<and> (DJANGO_AVAILABLE env \<and> existing_files (files w) = []
        \<and> mkdir_p (butlast dest_path) (files w) = Inr fs2 \<longrightarrow>
      process_js env w = Inr (say NoJsFound (w\<lparr>files := fs2\<rparr>)))
   \<and> (\<not> DJANGO_AVAILABLE env \<longrightarrow>
      process_journals env override_css_dir paths w = Inr (say JournalsNoDjango w))
   \<and> (DJANGO_AVAILABLE env \<and> \<not> SASS_AVAILABLE env \<longrightarrow>
      process_journals env override_css_dir paths w = Inr (say JournalsNoSass w))
   \<and> (\<not> path_exists (files w) source_css \<longrightarrow>
      watch_and_copy first polls w = ([], Returned (say (SourceCssNotFound source_css) w)))
   \<and> watch_loop lm (Interrupt # polls) w = ([], Returned (say StoppedWatching w))"
proof (intro conjI impI)
  assume a: "\<not> path_exists (files w) source_css \<and> mkdir_p css_dest_dir (files w) = Inr fs1"
  have "lookup fs1 (''themes'' # q) = lookup (files w) (''themes'' # q)" for q
  proof -
    from a have "mkdir_p css_dest_dir (files w) = Inr fs1" by simp
    then show ?thesis unfolding css_dest_dir_def by (rule mkdir_p_frame) simp
  qed
  then have "lookup fs1 source_css = lookup (files w) source_css"
    by (simp add: source_css_def)
  with a show "copy_css_assets w
      = Inr (False, say (SourceCssNotFound source_css) (w\<lparr>files := fs1\<rparr>))"
    by (simp add: copy_css_assets_def path_exists_def)
next
  assume "\<not> path_exists (files w) source_dir"
  then show "copy_all_assets w = Inr (False, say (SourceDirNotFound source_dir) w)"
    by (simp add: copy_all_assets_def)
next
  assume "\<not> DJANGO_AVAILABLE env"
  then show "process_scss env w = Inr (say ScssNoDjango w)"
    by (simp add: process_scss_def)
next
  assume "DJANGO_AVAILABLE env \<and> \<not> SASS_AVAILABLE env"
  then show "process_scss env w = Inr (say ScssNoSass w)"
    by (simp add: process_scss_def)
next
  assume "DJANGO_AVAILABLE env \<and> SASS_AVAILABLE env \<and> \<not> path_exists (files w) app_scss_file"
  then show "process_scss env w = Inr (say (ScssNotFound app_scss_file) w)"
    by (simp add: process_scss_def)
next
  assume "\<not> DJANGO_AVAILABLE env"
  then show "process_js env w = Inr (say JsNoDjango w)"
    by (simp add: process_js_def)
next
  assume a: "DJANGO_AVAILABLE env \<and> existing_files (files w) = []
        \<and> mkdir_p (butlast dest_path) (files w) = Inr fs2"
  have "lookup fs2 (''themes'' # q) = lookup (files w) (''themes'' # q)" for q
  proof -
    from a have "mkdir_p (butlast dest_path) (files w) = Inr fs2" by simp
    then have "mkdir_p [''static'', ''salford'', ''js''] (files w) = Inr fs2"
      by (simp add: dest_path_def del: mkdir_p.simps)
    then show ?thesis by (rule mkdir_p_frame) simp
  qed
  from lookup_same_sources(1) [of fs2 "files w", OF this] a
  have "existing_files fs2 = []" by simp
  with a show "process_js env w = Inr (say NoJsFound (w\<lparr>files := fs2\<rparr>))"
    by (simp add: process_js_def existing_files_def)
next
  assume "\<not> DJANGO_AVAILABLE env"
  then show "process_journals env override_css_dir paths w = Inr (say JournalsNoDjango w)"
    by (simp add: process_journals_def)
next
  assume "DJANGO_AVAILABLE env \<and> \<not> SASS_AVAILABLE env"
  then show "process_journals env override_css_dir paths w = Inr (say JournalsNoSass w)"
    by (simp add: process_journals_def)
next
  assume "\<not> path_exists (files w) source_css"
  then show "watch_and_copy first polls w
      = ([], Returned (say (SourceCssNotFound source_css) w))"
    by (simp add: watch_and_copy_def)
next
  show "watch_loop lm (Interrupt # polls) w = ([], Returned (say StoppedWatching w))"
    by simp
qed

theorem precondition_failures_are_reported_witness:
  "\<not> path_exists (files empty_world) source_css
   \<and> mkdir_p css_dest_dir (files empty_world)
       = Inr [(''static'', Dir [(''salford'', Dir [(''css'', Dir [])])])]
   \<and> \<not> path_exists (files empty_world) source_dir
   \<and> \<not> DJANGO_AVAILABLE standalone_env
   \<and> copy_all_assets empty_world
       = Inr (False, \<lparr>files = [], console = [SourceDirNotFound source_dir], calls = []\<rparr>)
   \<and> process_scss standalone_env empty_world
       = Inr \<lparr>files = [], console = [ScssNoDjango], calls = []\<rparr>
   \<and> process_js standalone_env empty_world
       = Inr \<lparr>files = [], console = [JsNoDjango], calls = []\<rparr>
   \<and> process_journals standalone_env css_dest_dir include_paths empty_world
       = Inr \<lparr>files = [], console = [JournalsNoDjango], calls = []\<rparr>
   \<and> DJANGO_AVAILABLE example_env \<and> SASS_AVAILABLE example_env
   \<and> \<not> SASS_AVAILABLE (example_env\<lparr>SASS_AVAILABLE := False\<rparr>)
   \<and> \<not> path_exists (files empty_world) app_scss_file
   \<and> existing_files (files empty_world) = []
   \<and> mkdir_p (butlast dest_path) (files empty_world)
       = Inr [(''static'', Dir [(''salford'', Dir [(''js'', Dir [])])])]
   \<and> process_scss example_env empty_world
       = Inr \<lparr>files = [], console = [ScssNotFound app_scss_file], calls = []\<rparr>
   \<and> process_scss (example_env\<lparr>SASS_AVAILABLE := False\<rparr>) empty_world
       = Inr \<lparr>files = [], console = [ScssNoSass], calls = []\<rparr>
   \<and> process_journals (example_env\<lparr>SASS_AVAILABLE := False\<rparr>) css_dest_dir include_paths
         empty_world
       = Inr \<lparr>files = [], console = [JournalsNoSass], calls = []\<rparr>
   \<and> watch_and_copy (Mtime (0::nat)) [] empty_world
       = ([], Returned \<lparr>files = [], console = [SourceCssNotFound source_css], calls = []\<rparr>)"
  using precondition_failures_are_reported
    [where w = empty_world and env = "standalone_env"
       and ?fs1.0 = "[(''static'', Dir [(''salford'', Dir [(''css'', Dir [])])])]"
       and ?fs2.0 = "[(''static'', Dir [(''salford'', Dir [(''js'', Dir [])])])]"
       and override_css_dir = css_dest_dir and paths = include_paths
       and first = "Mtime (0::nat)" and polls = "[]" and lm = 0]
    precondition_failures_are_reported
    [where w = empty_world and env = "example_env"
       and ?fs1.0 = "[(''static'', Dir [(''salford'', Dir [(''css'', Dir [])])])]"
       and ?fs2.0 = "[(''static'', Dir [(''salford'', Dir [(''js'', Dir [])])])]"
       and override_css_dir = css_dest_dir and paths = include_paths
       and first = "Mtime (0::nat)" and polls = "[]" and lm = 0]
    precondition_failures_are_reported
    [where w = empty_world and env = "example_env\<lparr>SASS_AVAILABLE := False\<rparr>"
       and ?fs1.0 = "[(''static'', Dir [(''salford'', Dir [(''css'', Dir [])])])]"
       and ?fs2.0 = "[(''static'', Dir [(''salford'', Dir [(''js'', Dir [])])])]"
       and override_css_dir = css_dest_dir and paths = include_paths
       and first = "Mtime (0::nat)" and polls = "[]" and lm = 0]
  by (simp add: empty_world_def standalone_env_def example_env_def say_def
        path_exists_def existing_files_def source_paths_def dest_path_def
        source_css_def source_dir_def css_dest_dir_def app_scss_file_def)

text \<open>
  That no exception reaches the top level fails. In build mode with both collaborators,
  for a theme that holds \<open>scss/app.scss\<close> and no \<open>css\<close> directory, \<open>copy_all_assets\<close>
  replaces the directories \<open>create_paths\<close> has made and \<open>process_scss\<close> raises
  FileNotFoundError on opening \<open>static/salford/css/app.css\<close>. In watch mode the
  \<open>stat\<close> of a poll raises FileNotFoundError when the file is gone. In copy
  mode a regular file named \<open>static\<close> makes \<open>mkdir\<close> raise.
\<close>

theorem exception_reaches_top_level_counterexample:
  "main example_env (Mtime (0::nat)) [] [''build_assets.py'', ''build''] scss_only_world
     = Raised FileNotFoundError
   \<and> main example_env (Mtime (0::nat)) [Vanished] [''build_assets.py'', ''watch''] theme_world
     = Raised FileNotFoundError
   \<and> main example_env (Mtime (0::nat)) [] [''build_assets.py'', ''copy''] static_file_world
     = Raised NotADirectoryError"
  by (simp add: example_env_def scss_only_world_def theme_world_def static_file_world_def
        main_def finish_def build_full_def build_simple_def
        create_paths_def copy_css_assets_def copy_all_assets_def process_scss_def
        watch_and_copy_def copy2_def read_file_def
        copytree_def rmtree_def write_text_def path_exists_def is_dir_def say_def
        source_dir_def dest_dir_def source_css_def css_dest_dir_def dest_css_def
        app_scss_file_def app_css_file_def include_paths_def)

section \<open>Tenant overrides\<close>

lemma nat_of_str_str_nat: "nat_of_str (str_nat n) = n"
proof (induction n rule: str_nat.induct)
  case (1 n)
  show ?case
  proof (cases "n < 10")
    case True
    then show ?thesis
      by (subst str_nat.simps) (simp add: nat_of_str_def)
  next
    case False
    have m: "(48 + n mod 10) mod 256 = 48 + n mod 10"
      by (rule mod_less) (simp add: less_le_trans [OF add_strict_left_mono [OF pos_mod_bound]])
    from 1 [OF False] False m show ?thesis
      by (subst str_nat.simps) (simp add: nat_of_str_def)
  qed
qed

lemma str_nat_inj: "str_nat m = str_nat n \<Longrightarrow> m = n"
  by (metis nat_of_str_str_nat)

lemma str_nat_digits: "c \<in> set (str_nat n) \<Longrightarrow> 48 \<le> (of_char c :: nat)"
proof (induction n rule: str_nat.induct)
  case (1 n)
  show ?case
  proof (cases "n < 10")
    case True
    with 1(2) show ?thesis
      by (subst (asm) str_nat.simps) simp
  next
    case False
    have m: "(48 + n mod 10) mod 256 = 48 + n mod 10"
      by (rule mod_less) (simp add: less_le_trans [OF add_strict_left_mono [OF pos_mod_bound]])
    from 1(2) False have "c \<in> set (str_nat (n div 10)) \<or> c = char_of (48 + n mod 10)"
      by (subst (asm) str_nat.simps) auto
    with 1(1) [OF False] m show ?thesis by auto
  qed
qed

lemma str_nat_no_minus: "CHR ''-'' # s \<noteq> str_nat n"
proof
  assume "CHR ''-'' # s = str_nat n"
  then have "CHR ''-'' \<in> set (str_nat n)"
    by (metis list.set_intros(1))
  from str_nat_digits [OF this] show False by simp
qed

lemma str_int_inj: "str_int i = str_int j \<Longrightarrow> i = j"
proof -
  assume a: "str_int i = str_int j"
  show ?thesis
  proof (cases "i < 0"; cases "j < 0")
    assume "i < 0" "j < 0"
    with a have "nat (- i) = nat (- j)" by (auto simp: str_int_def dest: str_nat_inj)
    with \<open>i < 0\<close> \<open>j < 0\<close> show ?thesis by simp
  next
    assume "i < 0" "\<not> j < 0"
    with a str_nat_no_minus show ?thesis by (auto simp: str_int_def)
  next
    assume "\<not> i < 0" "j < 0"
    with a str_nat_no_minus [of _ "nat i"] show ?thesis by (auto simp: str_int_def)
  next
    assume "\<not> i < 0" "\<not> j < 0"
    with a have "nat i = nat j" by (auto simp: str_int_def dest: str_nat_inj)
    with \<open>\<not> i < 0\<close> \<open>\<not> j < 0\<close> show ?thesis by simp
  qed
qed

lemma override_css_name_inj:
  "override_css_name j = override_css_name k \<Longrightarrow> id' j = id' k"
  by (auto simp: override_css_name_def dest: str_int_inj)

lemma write_file_sibling:
  "write_file (d @ [a]) b es = Inr es' \<Longrightarrow> a' \<noteq> a \<Longrightarrow>
     lookup es' (d @ [a']) = lookup es (d @ [a'])"
proof (induction d arbitrary: es es')
  case Nil
  then show ?case
    by (auto split: option.splits node.splits simp: update_conv')
next
  case (Cons c cs)
  from Cons.prems(1) obtain xs xs' where
    a: "map_of es c = Some (Dir xs)" "write_file (cs @ [a]) b xs = Inr xs'"
       "es' = AList.update c (Dir xs') es"
    by (cases "cs @ [a]") (auto split: option.splits node.splits sum.splits)
  from Cons.IH [OF a(2) Cons.prems(2)] a(1,3) show ?case
    by (simp add: update_conv')
qed

lemma scss_files_frame:
  assumes "map_of es' ''files'' = map_of es ''files''"
  shows "scss_files es' j = scss_files es j"
proof -
  from assms have "lookup es' (journal_dir j) = lookup es (journal_dir j)"
    and "absent_error es' (journal_dir j) = absent_error es (journal_dir j)"
    by (simp_all add: journal_dir_def)
  then show ?thesis
    by (simp add: scss_files_def iterdir_def path_exists_def cong: option.case_cong)
qed

lemma first_scss_frame:
  assumes "map_of es' ''files'' = map_of es ''files''"
  shows "first_scss es' j = first_scss es j"
proof -
  from assms have "lookup es' (journal_dir j) = lookup es (journal_dir j)"
    by (simp add: journal_dir_def)
  then show ?thesis
    by (simp add: first_scss_def)
qed

lemma scss_files_first:
  "scss_files es j = Inr fs \<Longrightarrow>
     first_scss es j = (case fs of [] \<Rightarrow> None | f # rest \<Rightarrow> Some f)"
  by (auto simp: scss_files_def first_scss_def iterdir_def path_exists_def
           split: if_splits option.splits node.splits list.splits)

lemma first_scss_same_id:
  assumes "id' j = id' k"
  shows "first_scss es j = first_scss es k"
proof -
  from assms have "journal_dir j = journal_dir k"
    by (simp add: journal_dir_def)
  then show ?thesis
    unfolding first_scss_def by (rule arg_cong [of _ _ "\<lambda>d. case lookup es d of Some (Dir ds) \<Rightarrow>
          (case filter (\<lambda>n. suffix n = ''.scss'') (map fst (AList.clearjunk ds)) of
             [] \<Rightarrow> None
           | n # ns \<Rightarrow> Some (d @ [n]))
      | _ \<Rightarrow> None"])
qed

lemma compiles_frame:
  assumes "map_of es' ''files'' = map_of es ''files''"
  shows "compiles es' paths js = compiles es paths js"
    and "override_reports es' js = override_reports es js"
  using first_scss_frame [OF assms] by (simp_all add: compiles_def override_reports_def)

lemma override_css_file_same_id:
  "id' j = id' k \<Longrightarrow> override_css_file j = override_css_file k"
  by (simp add: override_css_file_def override_css_name_def)

lemma journals_loop_result:
  assumes "journals_loop env css_dest_dir paths js w = Inr w'"
  shows "outside_static (files w') (files w)
    \<and> calls w' = calls w @ compiles (files w) paths js
    \<and> console w' = console w @ override_reports (files w) js
    \<and> (\<forall>j \<in> set js. \<forall>f. first_scss (files w) j = Some f \<longrightarrow>
          (\<exists>es css. outside_static es (files w) \<and> sass_compile env es f paths = Inr css
             \<and> lookup (files w') (override_css_file j) = Some (File css)))
    \<and> (\<forall>k. (\<forall>j \<in> set js. first_scss (files w) j \<noteq> None \<longrightarrow> id' j \<noteq> id' k) \<longrightarrow>
          lookup (files w') (override_css_file k) = lookup (files w) (override_css_file k))"
  using assms
proof (induction js arbitrary: w)
  case Nil
  then show ?case
    by (simp add: compiles_def override_reports_def outside_static_def)
next
  case (Cons j js)
  from Cons.prems obtain fs where sf: "scss_files (files w) j = Inr fs"
    by (auto split: sum.splits)
  show ?case
  proof (cases fs)
    case Nil
    with sf Cons.prems have loop: "journals_loop env css_dest_dir paths js w = Inr w'"
      by simp
    from scss_files_first [OF sf] Nil have none: "first_scss (files w) j = None"
      by simp
    note ih = Cons.IH [OF loop]
    from none have "compiles (files w) paths (j # js) = compiles (files w) paths js"
      and "override_reports (files w) (j # js) = override_reports (files w) js"
      by (simp_all add: compiles_def override_reports_def)
    with ih none show ?thesis
      by simp
  next
    case (Cons f rest)
    with sf Cons.prems obtain css fs1 where
      comp: "sass_compile env (files w) f paths = Inr css"
      and wr: "write_file (css_dest_dir @ [override_css_name j]) css (files w) = Inr fs1"
      and loop: "journals_loop env css_dest_dir paths js
                   (say (JournalOverrides (id' j) (name j)) w
                      \<lparr>files := fs1, calls := calls w @ [SassCompile f paths]\<rparr>) = Inr w'"
      by (auto simp: write_text_def say_def Let_def split: sum.splits)
    define w1 where "w1 = say (JournalOverrides (id' j) (name j)) w
                      \<lparr>files := fs1, calls := calls w @ [SassCompile f paths]\<rparr>"
    have w1: "files w1 = fs1" "calls w1 = calls w @ [SassCompile f paths]"
      "console w1 = console w @ [JournalOverrides (id' j) (name j)]"
      by (simp_all add: w1_def say_def)
    from scss_files_first [OF sf] Cons have some: "first_scss (files w) j = Some f"
      by simp
    have os: "outside_static fs1 (files w)"
      unfolding outside_static_def
    proof (intro allI impI)
      fix c :: string
      assume "c \<noteq> ''static''"
      with wr [unfolded css_dest_dir_def append_Cons] show "map_of fs1 c = map_of (files w) c"
        by (rule write_file_other)
    qed
    then have fr: "map_of fs1 ''files'' = map_of (files w) ''files''"
      by (simp add: outside_static_def)
    note same = first_scss_frame [OF fr]
    from loop have "journals_loop env css_dest_dir paths js w1 = Inr w'"
      by (simp add: w1_def)
    note ih = Cons.IH [OF this, unfolded w1 same compiles_frame [OF fr]]
    from ih os have a: "outside_static (files w') (files w)"
      by (simp add: outside_static_def)
    from ih some have b: "calls w' = calls w @ compiles (files w) paths (j # js)"
      by (simp add: compiles_def)
    from ih some have c: "console w' = console w @ override_reports (files w) (j # js)"
      by (simp add: override_reports_def)
    from ih have "\<forall>j \<in> set js. \<forall>f. first_scss (files w) j = Some f \<longrightarrow>
          (\<exists>es css. outside_static es fs1 \<and> sass_compile env es f paths = Inr css
             \<and> lookup (files w') (override_css_file j) = Some (File css))"
      by blast
    moreover have "outside_static es (files w)" if "outside_static es fs1" for es
      using that os by (simp add: outside_static_def)
    ultimately have ihd: "\<forall>j \<in> set js. \<forall>f. first_scss (files w) j = Some f \<longrightarrow>
          (\<exists>es css. outside_static es (files w) \<and> sass_compile env es f paths = Inr css
             \<and> lookup (files w') (override_css_file j) = Some (File css))"
      by blast
    from ih have ihe: "\<forall>k. (\<forall>j \<in> set js. first_scss (files w) j \<noteq> None \<longrightarrow> id' j \<noteq> id' k) \<longrightarrow>
          lookup (files w') (override_css_file k) = lookup fs1 (override_css_file k)"
      by blast
    have here: "\<exists>es css. outside_static es (files w) \<and> sass_compile env es f paths = Inr css
             \<and> lookup (files w') (override_css_file j) = Some (File css)"
    proof (cases "\<forall>j2 \<in> set js. first_scss (files w) j2 \<noteq> None \<longrightarrow> id' j2 \<noteq> id' j")
      case True
      with ihe have "lookup (files w') (override_css_file j) = lookup fs1 (override_css_file j)"
        by blast
      also from write_file_lookup [OF wr] have "\<dots> = Some (File css)"
        by (simp add: override_css_file_def)
      finally show ?thesis using comp by (auto simp: outside_static_def)
    next
      case False
      then obtain j2 where j2: "j2 \<in> set js" "first_scss (files w) j2 \<noteq> None" "id' j2 = id' j"
        by blast
      from first_scss_same_id [OF j2(3)] some have "first_scss (files w) j2 = Some f"
        by simp
      with ihd j2(1) obtain es css2 where "outside_static es (files w)"
        and "sass_compile env es f paths = Inr css2"
        and "lookup (files w') (override_css_file j2) = Some (File css2)"
        by blast
      with override_css_file_same_id [OF j2(3)] show ?thesis
        by auto
    qed
    have d: "\<forall>j' \<in> set (j # js). \<forall>f'. first_scss (files w) j' = Some f' \<longrightarrow>
          (\<exists>es css. outside_static es (files w) \<and> sass_compile env es f' paths = Inr css
             \<and> lookup (files w') (override_css_file j') = Some (File css))"
      using here some ihd by auto
    have e: "\<forall>k. (\<forall>j' \<in> set (j # js). first_scss (files w) j' \<noteq> None \<longrightarrow> id' j' \<noteq> id' k) \<longrightarrow>
          lookup (files w') (override_css_file k) = lookup (files w) (override_css_file k)"
    proof (intro allI impI)
      fix k :: journal
      assume k: "\<forall>j' \<in> set (j # js). first_scss (files w) j' \<noteq> None \<longrightarrow> id' j' \<noteq> id' k"
      with some have "id' j \<noteq> id' k" by auto
      then have "override_css_name k \<noteq> override_css_name j"
        using override_css_name_inj [of k j] by auto
      from write_file_sibling [OF wr this]
      have "lookup fs1 (override_css_file k) = lookup (files w) (override_css_file k)"
        by (simp add: override_css_file_def)
      moreover from k ihe
      have "lookup (files w') (override_css_file k) = lookup fs1 (override_css_file k)"
        by auto
      ultimately show "lookup (files w') (override_css_file k)
          = lookup (files w) (override_css_file k)"
        by simp
    qed
    from a b c d e show ?thesis by blast
  qed
qed

lemma journals_run:
  "process_journals journals_env css_dest_dir include_paths journals_world = Inr journals_after"
  by code_simp

lemma journals_output:
  "lookup (files journals_after) (override_css_file \<lparr>id' = 1, name = ''One''\<rparr>)
     = Some (File ''b {}'')"
  by code_simp

lemma journals_first:
  "first_scss (files journals_world) \<lparr>id' = 1, name = ''One''\<rparr>
     = Some [''files'', ''styling'', ''journals'', ''1'', ''b.scss'']"
  "first_scss (files journals_world) \<lparr>id' = 2, name = ''Two''\<rparr> = None"
  "first_scss (files journals_world) \<lparr>id' = 3, name = ''Three''\<rparr> = None"
  by code_simp+

lemma process_journals_result:
  assumes "DJANGO_AVAILABLE env" and "SASS_AVAILABLE env"
    and "process_journals env css_dest_dir include_paths w = Inr w'"
  shows "calls w' = calls w @ compiles (files w) include_paths (journals env)
    \<and> console w' = console w @ override_reports (files w) (journals env)
    \<and> (\<forall>j \<in> set (journals env).
          case first_scss (files w) j of
            Some f \<Rightarrow>
              (\<exists>es css. outside_static es (files w)
                 \<and> sass_compile env es f include_paths = Inr css
                 \<and> lookup (files w') (override_css_file j) = Some (File css))
          | None \<Rightarrow>
              lookup (files w') (override_css_file j) = lookup (files w) (override_css_file j))"
proof -
  from assms have "journals_loop env css_dest_dir include_paths (journals env) w = Inr w'"
    by (simp add: process_journals_def)
  note r = journals_loop_result [OF this]
  have "case first_scss (files w) j of
            Some f \<Rightarrow>
              (\<exists>es css. outside_static es (files w)
                 \<and> sass_compile env es f include_paths = Inr css
                 \<and> lookup (files w') (override_css_file j) = Some (File css))
          | None \<Rightarrow>
              lookup (files w') (override_css_file j) = lookup (files w) (override_css_file j)"
    if j: "j \<in> set (journals env)" for j
  proof (cases "first_scss (files w) j")
    case (Some f)
    with r j show ?thesis by simp
  next
    case None
    have "\<forall>j2 \<in> set (journals env). first_scss (files w) j2 \<noteq> None \<longrightarrow> id' j2 \<noteq> id' j"
      using None first_scss_same_id [of _ j "files w"] by metis
    with r None show ?thesis by simp
  qed
  with r show ?thesis by blast
qed

lemma scss_files_returns:
  "\<not> is_file es (journal_dir j) \<Longrightarrow> \<exists>fs. scss_files es j = Inr fs"
  by (auto simp: scss_files_def iterdir_def path_exists_def is_file_def
           split: option.splits node.splits)

lemma outside_static_files:
  assumes "outside_static es' es"
  shows "lookup es' (journal_dir j) = lookup es (journal_dir j)"
    and "first_scss es' j = first_scss es j"
    and "scss_files es' j = scss_files es j"
proof -
  from assms have m: "map_of es' ''files'' = map_of es ''files''"
    by (simp add: outside_static_def)
  then show "lookup es' (journal_dir j) = lookup es (journal_dir j)"
    by (simp add: journal_dir_def)
  from m show "first_scss es' j = first_scss es j" by (rule first_scss_frame)
  from m show "scss_files es' j = scss_files es j" by (rule scss_files_frame)
qed

lemma outside_static_trans:
  "outside_static a b \<Longrightarrow> outside_static b c \<Longrightarrow> outside_static a c"
  by (simp add: outside_static_def)

lemma journals_loop_returns:
  assumes "is_dir (files w) css_dest_dir"
    and "\<forall>j \<in> set js. \<not> is_file (files w) (journal_dir j)
           \<and> \<not> is_dir (files w) (override_css_file j)"
    and "\<forall>j \<in> set js. \<forall>f es'. first_scss es0 j = Some f \<longrightarrow> outside_static es' es0 \<longrightarrow>
           (\<exists>css. sass_compile env es' f paths = Inr css)"
    and "outside_static (files w) es0"
  shows "\<exists>w'. journals_loop env css_dest_dir paths js w = Inr w'"
  using assms
proof (induction js arbitrary: w)
  case Nil
  then show ?case by simp
next
  case (Cons j js)
  from Cons.prems(2) have nf: "\<not> is_file (files w) (journal_dir j)"
    and nd: "\<not> is_dir (files w) (override_css_file j)"
    by simp_all
  from scss_files_returns [OF nf] obtain fs where sf: "scss_files (files w) j = Inr fs"
    by blast
  from Cons.prems(2,3) have rest2: "\<forall>j \<in> set js. \<not> is_file (files w) (journal_dir j)
           \<and> \<not> is_dir (files w) (override_css_file j)"
    and rest3: "\<forall>j \<in> set js. \<forall>f es'. first_scss es0 j = Some f \<longrightarrow> outside_static es' es0 \<longrightarrow>
           (\<exists>css. sass_compile env es' f paths = Inr css)"
    by simp_all
  show ?case
  proof (cases fs)
    case Nil
    with sf Cons.IH [OF Cons.prems(1) rest2 rest3 Cons.prems(4)] show ?thesis
      by simp
  next
    case (Cons f rest)
    from scss_files_first [OF sf] Cons have "first_scss (files w) j = Some f"
      by simp
    with outside_static_files(2) [OF Cons.prems(4), of j]
    have "first_scss es0 j = Some f" by simp
    with Cons.prems(3,4) obtain css where comp: "sass_compile env (files w) f paths = Inr css"
      by force
    from write_file_returns [OF Cons.prems(1), of "override_css_name j" css] nd
    obtain fs1 where wr: "write_file (css_dest_dir @ [override_css_name j]) css (files w) = Inr fs1"
      by (auto simp: override_css_file_def)
    define w1 where "w1 = say (JournalOverrides (id' j) (name j)) w
                      \<lparr>files := fs1, calls := calls w @ [SassCompile f paths]\<rparr>"
    have fw1: "files w1 = fs1"
      by (simp add: w1_def say_def)
    have os: "outside_static fs1 (files w)"
      unfolding outside_static_def
    proof (intro allI impI)
      fix c :: string
      assume "c \<noteq> ''static''"
      with wr [unfolded css_dest_dir_def append_Cons] show "map_of fs1 c = map_of (files w) c"
        by (rule write_file_other)
    qed
    from write_file_lookup [OF wr] have d1: "is_dir (files w1) css_dest_dir"
      using lookup_parent_is_dir [of fs1 css_dest_dir "[override_css_name j]"] fw1
      by simp
    have r2: "\<forall>k \<in> set js. \<not> is_file (files w1) (journal_dir k)
           \<and> \<not> is_dir (files w1) (override_css_file k)"
    proof
      fix k
      assume k: "k \<in> set js"
      from outside_static_files(1) [OF os, of k] rest2 k fw1
      have "\<not> is_file (files w1) (journal_dir k)"
        by (simp add: is_file_def)
      moreover have "\<not> is_dir (files w1) (override_css_file k)"
      proof (cases "override_css_name k = override_css_name j")
        case True
        with write_file_lookup [OF wr] fw1 show ?thesis
          by (simp add: is_dir_def override_css_file_def)
      next
        case False
        from write_file_sibling [OF wr False] rest2 k fw1 show ?thesis
          by (simp add: is_dir_def override_css_file_def)
      qed
      ultimately show "\<not> is_file (files w1) (journal_dir k)
           \<and> \<not> is_dir (files w1) (override_css_file k)" ..
    qed
    from os Cons.prems(4) fw1 have "outside_static (files w1) es0"
      by (auto intro: outside_static_trans)
    from Cons.IH [OF d1 r2 rest3 this] obtain w' where
      "journals_loop env css_dest_dir paths js w1 = Inr w'" by blast
    with sf Cons comp wr show ?thesis
      by (simp add: write_text_def say_def Let_def w1_def)
  qed
qed

lemma process_journals_returns:
  assumes "DJANGO_AVAILABLE env" and "SASS_AVAILABLE env"
    and "overrides_ready env (files w)"
  shows "\<exists>w'. process_journals env css_dest_dir include_paths w = Inr w'"
proof -
  have "outside_static (files w) (files w)"
    by (simp add: outside_static_def)
  with assms(3) journals_loop_returns [of w "journals env" "files w" env include_paths]
  have "\<exists>w'. journals_loop env css_dest_dir include_paths (journals env) w = Inr w'"
    by (simp add: overrides_ready_def)
  with assms(1,2) show ?thesis
    by (simp add: process_journals_def)
qed

text \<open>
  C8. With the framework and the SCSS compiler available, whenever the override
  processor, called as build mode calls it, returns: the compiler has been called
  exactly once for each tenant of the data layer whose styling directory lists a name
  with the suffix \<open>.scss\<close>, on the first such name of the listing and in the order of
  the tenants; the file \<open>journal<id>_override.css\<close> of such a tenant holds what the
  compiler returned for that file, on files that differ from the initial ones below
  \<open>static\<close> only; and for every tenant without such a directory or such a name
  nothing is printed and its output file is as it was before. The processor does
  return in every state that is \<open>overrides_ready\<close>.
\<close>

theorem process_journals_overrides:
  assumes "DJANGO_AVAILABLE env" and "SASS_AVAILABLE env"
  shows "(process_journals env css_dest_dir include_paths w = Inr w' \<longrightarrow>
           calls w' = calls w @ compiles (files w) include_paths (journals env)
          \<and> console w' = console w @ override_reports (files w) (journals env)
          \<and> (\<forall>j \<in> set (journals env).
                case first_scss (files w) j of
                  Some f \<Rightarrow>
                    (\<exists>es css. outside_static es (files w)
                       \<and> sass_compile env es f include_paths = Inr css
                       \<and> lookup (files w') (override_css_file j) = Some (File css))
                | None \<Rightarrow>
                    lookup (files w') (override_css_file j) = lookup (files w) (override_css_file j)))
       \<and> (overrides_ready env (files w) \<longrightarrow>
            (\<exists>w'. process_journals env css_dest_dir include_paths w = Inr w'))"
  using process_journals_result [OF assms, of w w'] process_journals_returns [OF assms, of w]
  by blast

lemma journals_ready:
  "overrides_ready journals_env (files journals_world)"
  unfolding overrides_ready_def
proof (intro conjI ballI)
  show "is_dir (files journals_world) css_dest_dir"
    by code_simp
next
  fix j
  assume "j \<in> set (journals journals_env)"
  then have j: "j = \<lparr>id' = 1, name = ''One''\<rparr> \<or> j = \<lparr>id' = 2, name = ''Two''\<rparr>
      \<or> j = \<lparr>id' = 3, name = ''Three''\<rparr>"
    by (simp add: journals_env_def)
  have "\<not> is_file (files journals_world) (journal_dir \<lparr>id' = 1, name = ''One''\<rparr>)"
    "\<not> is_file (files journals_world) (journal_dir \<lparr>id' = 2, name = ''Two''\<rparr>)"
    "\<not> is_file (files journals_world) (journal_dir \<lparr>id' = 3, name = ''Three''\<rparr>)"
    "\<not> is_dir (files journals_world) (override_css_file \<lparr>id' = 1, name = ''One''\<rparr>)"
    "\<not> is_dir (files journals_world) (override_css_file \<lparr>id' = 2, name = ''Two''\<rparr>)"
    "\<not> is_dir (files journals_world) (override_css_file \<lparr>id' = 3, name = ''Three''\<rparr>)"
    by code_simp+
  with j show "\<not> is_file (files journals_world) (journal_dir j)"
    and "\<not> is_dir (files journals_world) (override_css_file j)"
    by auto
  show "\<forall>f es'. first_scss (files journals_world) j = Some f \<longrightarrow>
      outside_static es' (files journals_world) \<longrightarrow>
      (\<exists>css. sass_compile journals_env es' f include_paths = Inr css)"
    by (simp add: journals_env_def)
qed

theorem process_journals_overrides_witness:
  "DJANGO_AVAILABLE journals_env \<and> SASS_AVAILABLE journals_env
   \<and> overrides_ready journals_env (files journals_world)
   \<and> process_journals journals_env css_dest_dir include_paths journals_world = Inr journals_after
   \<and> first_scss (files journals_world) \<lparr>id' = 1, name = ''One''\<rparr>
       = Some [''files'', ''styling'', ''journals'', ''1'', ''b.scss'']
   \<and> first_scss (files journals_world) \<lparr>id' = 2, name = ''Two''\<rparr> = None
   \<and> first_scss (files journals_world) \<lparr>id' = 3, name = ''Three''\<rparr> = None
   \<and> calls journals_after
       = [SassCompile [''files'', ''styling'', ''journals'', ''1'', ''b.scss''] include_paths]
   \<and> lookup (files journals_after) (override_css_file \<lparr>id' = 1, name = ''One''\<rparr>)
       = Some (File ''b {}'')"
  using process_journals_overrides [of journals_env journals_world journals_after]
    journals_run journals_first journals_ready journals_output
  by (simp add: journals_env_def journals_after_def)

end
